theory Spec2Isabelle
  imports Main "HOL-Library.AList"
begin

section \<open>Python strings\<close>

text \<open>
  The article texts, the titles, the redirect aliases and the link targets of
  \<^verbatim>\<open>wiki.py\<close> are Python 2 unicode strings: lists of code points. \<open>U ''abc''\<close> is
  the unicode string of the literal \<^verbatim>\<open>u'abc'\<close>. The names that the program
  itself writes, the attribute values that the renderer reads and the bytes that it
  serializes are strings of the first 256 code points.
\<close>

type_synonym ustring = "nat list"

definition U :: "string \<Rightarrow> ustring" where
  "U s = map of_char s"

text \<open>
  What the Unicode database of the Python build says of the code points from 128 on:
  the upper-case letter of a code point and whether it is white space. Below 128 both
  are fixed: the letters \<open>a\<close> to \<open>z\<close> have the upper-case letters \<open>A\<close> to \<open>Z\<close>,
  every other code point is its own upper case, and the white space is the code points
  9 to 13, 28 to 31 and 32.
\<close>

record unicode_db =
  db_upper :: "nat \<Rightarrow> nat"
  db_space :: "nat \<Rightarrow> bool"

definition toupper :: "unicode_db \<Rightarrow> nat \<Rightarrow> nat" where
  "toupper db c =
     (if c < 128 then (if 97 \<le> c \<and> c \<le> 122 then c - 32 else c) else db_upper db c)"

definition isspace :: "unicode_db \<Rightarrow> nat \<Rightarrow> bool" where
  "isspace db c =
     (if c < 128 then c \<in> {9, 10, 11, 12, 13, 28, 29, 30, 31, 32} else db_space db c)"

text \<open>
  \<^verbatim>\<open>text.upper()\<close>: Python 2 upper-cases a unicode string code point by code point,
  so the length is kept.
\<close>

definition upper :: "unicode_db \<Rightarrow> ustring \<Rightarrow> ustring" where
  "upper db s = map (toupper db) s"

text \<open>\<^verbatim>\<open>text.startswith(alias)\<close>\<close>

definition startswith :: "'a list \<Rightarrow> 'a list \<Rightarrow> bool" where
  "startswith text p = (take (length p) text = p)"

text \<open>\<^verbatim>\<open>text.lstrip()\<close> of a unicode string: the white space at the left end is removed.\<close>

definition lstrip :: "unicode_db \<Rightarrow> ustring \<Rightarrow> ustring" where
  "lstrip db s = dropWhile (isspace db) s"

text \<open>
  The characters that \<^verbatim>\<open>unicode.isspace\<close> accepts among the first 256 code points,
  for the attribute values and marker texts of the renderer: \<^verbatim>\<open>strip()\<close> removes them
  from both ends.
\<close>

definition is_space :: "char \<Rightarrow> bool" where
  "is_space c = ((of_char c :: nat) \<in> {9, 10, 11, 12, 13, 28, 29, 30, 31, 32, 133, 160})"

definition strip :: "string \<Rightarrow> string" where
  "strip s = rev (dropWhile is_space (rev (dropWhile is_space s)))"

text \<open>
  \<^verbatim>\<open>text.rstrip()\<close> of a byte string, which the serialized text of an article is:
  the ASCII white space at the right end is removed.
\<close>

definition is_ascii_space :: "char \<Rightarrow> bool" where
  "is_ascii_space c = ((of_char c :: nat) \<in> {9, 10, 11, 12, 13, 32})"

definition rstrip :: "string \<Rightarrow> string" where
  "rstrip s = rev (dropWhile is_ascii_space (rev s))"

text \<open>
  \<^verbatim>\<open>text.find(sub)\<close>: the lowest index at which \<open>sub\<close> occurs, \<open>-1\<close> when it does
  not occur.
\<close>

fun find_from :: "'a list \<Rightarrow> 'a list \<Rightarrow> nat \<Rightarrow> int" where
  "find_from sub [] i = (if sub = [] then int i else -1)"
| "find_from sub (c # cs) i =
     (if startswith (c # cs) sub then int i else find_from sub cs (Suc i))"

definition find_str :: "'a list \<Rightarrow> 'a list \<Rightarrow> int" where
  "find_str text sub = find_from sub text 0"

text \<open>
  \<^verbatim>\<open>text[i:j]\<close>: an index below zero counts from the end, every index is clipped to the
  string, and the slice is empty when the start is not before the stop.
\<close>

definition clip_index :: "nat \<Rightarrow> int \<Rightarrow> nat" where
  "clip_index n i = (if i < 0 then nat (max 0 (int n + i)) else min n (nat i))"

definition slice :: "'a list \<Rightarrow> int \<Rightarrow> int \<Rightarrow> 'a list" where
  "slice text i j =
     (let a = clip_index (length text) i; b = clip_index (length text) j
      in take (b - a) (drop a text))"

text \<open>\<^verbatim>\<open>unicode(num)\<close> of a number that is not negative: its decimal digits.\<close>

definition digit_char :: "nat \<Rightarrow> char" where
  "digit_char d = ''0123456789'' ! (d mod 10)"

fun unicode_nat :: "nat \<Rightarrow> string" where
  "unicode_nat n = (if n < 10 then [digit_char n] else unicode_nat (n div 10) @ [digit_char n])"

declare unicode_nat.simps [simp del]

section \<open>Exceptions\<close>

text \<open>
  \<^verbatim>\<open>ConvertError\<close> carries a title; \<^verbatim>\<open>EmptyArticleError\<close> and \<^verbatim>\<open>BadRedirect\<close>
  are its subclasses (\<^verbatim>\<open>wiki.py\<close>, lines 70 to 95 and 134). The other constructors are
  the exceptions of Python and of the libraries that the modelled code can meet; all of
  them derive from \<^verbatim>\<open>Exception\<close>.
\<close>

datatype exn =
    ConvertError ustring
  | EmptyArticleError ustring
  | BadRedirect ustring
  | KeyError ustring
  | TypeError
  | LibraryError string

text \<open>\<^verbatim>\<open>isinstance(e, ConvertError)\<close> and the attribute \<^verbatim>\<open>e.title\<close>.\<close>

fun is_ConvertError :: "exn \<Rightarrow> bool" where
  "is_ConvertError (ConvertError t) = True"
| "is_ConvertError (EmptyArticleError t) = True"
| "is_ConvertError (BadRedirect t) = True"
| "is_ConvertError e = False"

fun is_EmptyArticleError :: "exn \<Rightarrow> bool" where
  "is_EmptyArticleError (EmptyArticleError t) = True"
| "is_EmptyArticleError e = False"

fun exn_title :: "exn \<Rightarrow> ustring" where
  "exn_title (ConvertError t) = t"
| "exn_title (EmptyArticleError t) = t"
| "exn_title (BadRedirect t) = t"
| "exn_title e = []"

section \<open>Redirect resolver\<close>

text \<open>
  \<^verbatim>\<open>parse_redirect(text, aliases)\<close>, \<^verbatim>\<open>wiki.py\<close> lines 137 to 186. The aliases are
  tried in the order in which they are iterated; the first one that the text, or the
  upper-cased text, starts with decides the result. \<open>Inr None\<close> is the return value
  \<^verbatim>\<open>None\<close>. The first argument is the Unicode database behind \<^verbatim>\<open>upper\<close> and
  \<^verbatim>\<open>lstrip\<close>.
\<close>

fun parse_redirect :: "unicode_db \<Rightarrow> ustring \<Rightarrow> ustring list \<Rightarrow> exn + ustring option" where
  "parse_redirect db text [] = Inr None"
| "parse_redirect db text (alias # aliases) =
     (if startswith text alias \<or> startswith (upper db text) alias then
        (let text' = lstrip db (drop (length alias) text);
             begin = find_str text' (U ''[['')
         in if begin < 0 then Inl (BadRedirect text')
            else (let end = find_str text' (U '']]'')
                  in if end < 0 then Inl (BadRedirect text')
                     else Inr (Some (slice text' (begin + 2) end))))
      else parse_redirect db text aliases)"

section \<open>Article pipeline\<close>

subsection \<open>Data and collaborators\<close>

text \<open>
  A node of the document tree of mwlib, as far as the modelled code reads it: the kind of
  the node, its attribute dictionary, its caption and its children.
\<close>

datatype node =
  Node (node_kind: string) (attributes: "(string \<times> string) list") (caption: string)
       (children: "node list")

text \<open>An element of \<^verbatim>\<open>xml.etree.ElementTree\<close>.\<close>

datatype element =
  Element (tag: string) (attrib: "(string \<times> string) list") (etext: string) (tail: string)
          (subelements: "element list")

text \<open>
  The value handed to \<^verbatim>\<open>tojson\<close>: the pair \<^verbatim>\<open>(text, tags)\<close> of an article or the
  triple \<^verbatim>\<open>('', [], meta)\<close> of a redirect, \<open>meta\<close> a dictionary.
\<close>

datatype payload =
    Json2 string "string list"
  | Json3 string "string list" "(string \<times> ustring) list"


type_synonym langlinks = "(ustring \<times> ustring) list"

text \<open>
  The tuple \<^verbatim>\<open>(title, serialized, redirect, languagelinks, size)\<close> that
  \<^verbatim>\<open>convert\<close> returns; the language links of a redirect are \<^verbatim>\<open>None\<close>.
\<close>

type_synonym result = "ustring \<times> payload \<times> bool \<times> langlinks option \<times> int"

text \<open>
  The filter description after \<^verbatim>\<open>load_filters\<close>; an entry of \<^verbatim>\<open>REGEX\<close> is a
  pattern with its replacement.
\<close>

record filters =
  EXCLUDE_PAGES :: "string list"
  EXCLUDE_CLASSES :: "string list"
  EXCLUDE_IDS :: "string list"
  REGEX :: "(string \<times> string) list"

text \<open>
  The process-wide \<^verbatim>\<open>wikidb\<close> and the library functions that \<^verbatim>\<open>convert\<close> calls.
  \<open>reader\<close> is the compiled database, a dictionary from a title to the text and the
  size of the article (the text may be \<^verbatim>\<open>None\<close>); \<open>redirect_aliases\<close> lists the alias
  set in the order in which it is iterated; \<open>py_unicode\<close> is the Unicode database of
  the Python build. A library function that raises returns \<open>Inl\<close> with the message of
  its exception.
\<close>

record wiki =
  py_unicode :: unicode_db
  reader :: "ustring \<rightharpoonup> ustring option \<times> int"
  redirect_aliases :: "ustring list"
  get_fqname :: "ustring \<Rightarrow> ustring"
  rtl :: bool
  wfilters :: filters
  parseString :: "ustring \<Rightarrow> ustring \<Rightarrow> string + node"
  preprocess :: "node \<Rightarrow> string + node"
  writer_write :: "node \<Rightarrow> string + element \<times> langlinks"
  tostring :: "element \<Rightarrow> string + string"
  re_sub :: "string \<Rightarrow> string \<Rightarrow> string \<Rightarrow> string + string"

text \<open>Exceptions as values: the rest of a block runs only when the step before returned.\<close>

definition seq :: "exn + 'a \<Rightarrow> ('a \<Rightarrow> exn + 'b) \<Rightarrow> exn + 'b" where
  "seq m f = (case m of Inl e \<Rightarrow> Inl e | Inr x \<Rightarrow> f x)"

definition lib :: "string + 'a \<Rightarrow> exn + 'a" where
  "lib m = (case m of Inl msg \<Rightarrow> Inl (LibraryError msg) | Inr x \<Rightarrow> Inr x)"

text \<open>\<^verbatim>\<open>wikidb.reader[title]\<close> and \<^verbatim>\<open>wikidb.reader.getitem_size(title)\<close>.\<close>

definition reader_getitem :: "wiki \<Rightarrow> ustring \<Rightarrow> exn + ustring option" where
  "reader_getitem W title =
     (case reader W title of None \<Rightarrow> Inl (KeyError title) | Some (text, n) \<Rightarrow> Inr text)"

definition reader_getitem_size :: "wiki \<Rightarrow> ustring \<Rightarrow> exn + int" where
  "reader_getitem_size W title =
     (case reader W title of None \<Rightarrow> Inl (KeyError title) | Some (text, n) \<Rightarrow> Inr n)"

subsection \<open>Renderer entry point\<close>

text \<open>
  \<^verbatim>\<open>convert(obj)\<close> of \<^verbatim>\<open>mwaardhtmlwriter.py\<close>, lines 287 to 296: the tree is written,
  the language links that the writer met are returned as pairs, and the list of tags is
  the literal \<^verbatim>\<open>[]\<close>.
\<close>

definition writer_convert :: "wiki \<Rightarrow> node \<Rightarrow> exn + string \<times> string list \<times> langlinks" where
  "writer_convert W obj =
     seq (lib (writer_write W obj)) (\<lambda>(e, w_languagelinks).
       (let languagelinks = (if w_languagelinks \<noteq> [] then map (\<lambda>(ns, t). (ns, t)) w_languagelinks else [])
        in seq (lib (tostring W e)) (\<lambda>text. Inr (text, [], languagelinks))))"

text \<open>
  A Python function called with more positional arguments than it declares raises
  \<^verbatim>\<open>TypeError\<close> before its body runs. \<open>call1 f extra x\<close> is the call of a function of
  one parameter with \<open>x\<close> and \<open>extra\<close> further arguments.
\<close>

definition call1 :: "('a \<Rightarrow> exn + 'b) \<Rightarrow> nat \<Rightarrow> 'a \<Rightarrow> exn + 'b" where
  "call1 f extra x = (if extra = 0 then f x else Inl TypeError)"

subsection \<open>Redirects\<close>

text \<open>\<^verbatim>\<open>mkredirect\<close>, lines 97 to 99.\<close>

definition mkredirect :: "ustring \<Rightarrow> ustring \<Rightarrow> ustring \<times> payload \<times> bool \<times> langlinks option" where
  "mkredirect title redirect_target = (title, Json3 [] [] [(''r'', redirect_target)], True, None)"

text \<open>
  \<^verbatim>\<open>Wiki.get_redirect\<close>, lines 206 to 210: a target that is \<^verbatim>\<open>None\<close> or empty is
  returned as it is, any other target is qualified by the namespace handler.
\<close>

definition get_redirect :: "wiki \<Rightarrow> ustring \<Rightarrow> exn + ustring option" where
  "get_redirect W text =
     seq (parse_redirect (py_unicode W) text (redirect_aliases W)) (\<lambda>redirect.
       case redirect of
         None \<Rightarrow> Inr None
       | Some r \<Rightarrow> if r \<noteq> [] then Inr (Some (get_fqname W r)) else Inr (Some r))"

subsection \<open>convert\<close>

text \<open>
  Lines 113 to 123 and 131 of \<^verbatim>\<open>wiki.py\<close>: the path of an article that is not a
  redirect. The text is parsed, the tree preprocessed and handed to the renderer
  together with \<^verbatim>\<open>wikidb.rtl\<close> and \<^verbatim>\<open>wikidb.filters\<close>, which are two arguments more
  than \<^verbatim>\<open>convert(obj)\<close> of the renderer declares; the substitutions of \<^verbatim>\<open>REGEX\<close>
  are then applied in their order.
\<close>

fun apply_regex :: "wiki \<Rightarrow> (string \<times> string) list \<Rightarrow> string \<Rightarrow> exn + string" where
  "apply_regex W [] text = Inr text"
| "apply_regex W ((re, sub) # items) text =
     seq (lib (re_sub W re sub text)) (\<lambda>text'. apply_regex W items text')"

definition package :: "ustring \<Rightarrow> string \<Rightarrow> string list \<Rightarrow> langlinks \<Rightarrow> int \<Rightarrow> result" where
  "package title text tags languagelinks sz =
     (title, Json2 (rstrip text) tags, False, Some languagelinks, sz)"

definition render_article :: "wiki \<Rightarrow> ustring \<Rightarrow> ustring \<Rightarrow> int \<Rightarrow> exn + result" where
  "render_article W title text sz =
     seq (lib (parseString W title text)) (\<lambda>mwobject.
     seq (lib (preprocess W mwobject)) (\<lambda>mwobject.
     seq (call1 (writer_convert W) 2 mwobject) (\<lambda>(text, tags, languagelinks).
     seq (apply_regex W (REGEX (wfilters W)) text) (\<lambda>text.
     Inr (package title text tags languagelinks sz)))))"

text \<open>The body of the \<^verbatim>\<open>try\<close> statement of \<^verbatim>\<open>convert\<close>, lines 103 to 123.\<close>

definition convert_try :: "wiki \<Rightarrow> ustring \<Rightarrow> exn + result" where
  "convert_try W title =
     seq (reader_getitem W title) (\<lambda>text.
     seq (reader_getitem_size W title) (\<lambda>sz.
       case text of
         None \<Rightarrow> Inl (EmptyArticleError title)
       | Some text \<Rightarrow>
           if text = [] then Inl (EmptyArticleError title)
           else seq (get_redirect W text) (\<lambda>redirect.
             case redirect of
               None \<Rightarrow> render_article W title text sz
             | Some r \<Rightarrow>
                 if r \<noteq> [] then
                   (case mkredirect title r of (t, s, rd, ll) \<Rightarrow> Inr (t, s, rd, ll, sz))
                 else render_article W title text sz)))"

text \<open>
  \<^verbatim>\<open>convert(title)\<close>, lines 101 to 131: an \<^verbatim>\<open>EmptyArticleError\<close> is raised again as
  it is, every other exception is replaced by \<^verbatim>\<open>ConvertError(title)\<close>.
\<close>

definition convert :: "wiki \<Rightarrow> ustring \<Rightarrow> exn + result" where
  "convert W title =
     (case convert_try W title of
        Inl e \<Rightarrow> if is_EmptyArticleError e then Inl e else Inl (ConvertError title)
      | Inr r \<Rightarrow> Inr r)"

section \<open>Renderer\<close>

text \<open>
  What a handler \<^verbatim>\<open>xwrite...\<close> of the writer returns: an element, into which the
  children of the node are then written; \<^verbatim>\<open>SkipChildren(e)\<close>, whose element, when
  there is one, is the whole output for the node; or \<^verbatim>\<open>None\<close>, no element.
\<close>

datatype handled =
    Elem element
  | SkipChildren "element option"
  | NoElement

subsection \<open>Content filter\<close>

text \<open>\<^verbatim>\<open>str.split()\<close> without argument: the maximal runs of characters that are not spaces.\<close>

fun split_from :: "string \<Rightarrow> string \<Rightarrow> string list" where
  "split_from [] cur = (if cur = [] then [] else [cur])"
| "split_from (c # cs) cur =
     (if is_space c then (if cur = [] then split_from cs [] else cur # split_from cs [])
      else split_from cs (cur @ [c]))"

definition str_split :: "string \<Rightarrow> string list" where
  "str_split s = split_from s []"

text \<open>\<^verbatim>\<open>obj.attributes.get(key, default)\<close>\<close>

definition attr_get :: "node \<Rightarrow> string \<Rightarrow> string \<Rightarrow> string" where
  "attr_get obj key dflt = (case map_of (attributes obj) key of None \<Rightarrow> dflt | Some v \<Rightarrow> v)"

text \<open>Line 13 of \<^verbatim>\<open>mwaardhtmlwriter.py\<close>.\<close>

definition BUILTIN_EXCLUDE_CLASSES :: "string list" where
  "BUILTIN_EXCLUDE_CLASSES =
     [''navbox'', ''collapsible'', ''autocollapse'', ''plainlinksneverexpand'', ''navbar'']"

text \<open>
  \<^verbatim>\<open>xwriteTable\<close> and \<^verbatim>\<open>xwriteGenericElement\<close>, lines 127 to 137. The first
  argument is the handler of \<^verbatim>\<open>MWXHTMLWriter\<close> that the method falls back to.
\<close>

definition xwriteTable :: "(node \<Rightarrow> handled) \<Rightarrow> node \<Rightarrow> handled" where
  "xwriteTable base_xwriteTable obj =
     (let tableclasses = str_split (attr_get obj ''class'' [])
      in if list_ex (\<lambda>tableclass. tableclass \<in> set BUILTIN_EXCLUDE_CLASSES) tableclasses
         then SkipChildren None
         else base_xwriteTable obj)"

definition xwriteGenericElement :: "(node \<Rightarrow> handled) \<Rightarrow> node \<Rightarrow> handled" where
  "xwriteGenericElement base_xwriteGenericElement obj =
     (let classes = str_split (attr_get obj ''class'' [])
      in if list_ex (\<lambda>cl. cl \<in> set BUILTIN_EXCLUDE_CLASSES) classes
         then SkipChildren None
         else base_xwriteGenericElement obj)"

text \<open>
  The rule of the specification, in its words: the element is suppressed when one of its
  classes is in the built-in set or in the configured \<^verbatim>\<open>excluded_classes\<close>.
\<close>

definition spec_suppressed :: "filters \<Rightarrow> node \<Rightarrow> bool" where
  "spec_suppressed F obj =
     (set (str_split (attr_get obj ''class'' [])) \<inter>
        (set BUILTIN_EXCLUDE_CLASSES \<union> set (EXCLUDE_CLASSES F)) \<noteq> {})"

subsection \<open>Reference tracker\<close>

text \<open>
  The two dictionaries of the writer (lines 25 and 28), as association lists: a group is
  a key of \<open>references\<close> from the moment it was first looked up there, and
  \<open>namedrefs\<close> gives, per group and name, the position first seen and the count.
\<close>

record writer =
  references :: "(string \<times> node list) list"
  namedrefs :: "(string \<times> (string \<times> nat \<times> nat) list) list"

definition new_writer :: writer where
  "new_writer = \<lparr> references = [], namedrefs = [] \<rparr>"

text \<open>The value of a \<^verbatim>\<open>defaultdict\<close> at a key: the default when the key is missing.\<close>

definition group_references :: "writer \<Rightarrow> string \<Rightarrow> node list" where
  "group_references w grp = (case map_of (references w) grp of None \<Rightarrow> [] | Some l \<Rightarrow> l)"

definition group_namedrefs :: "writer \<Rightarrow> string \<Rightarrow> (string \<times> nat \<times> nat) list" where
  "group_namedrefs w grp = (case map_of (namedrefs w) grp of None \<Rightarrow> [] | Some d \<Rightarrow> d)"

definition replace_char :: "char \<Rightarrow> char \<Rightarrow> string \<Rightarrow> string" where
  "replace_char a b s = map (\<lambda>c. if c = a then b else c) s"

text \<open>\<^verbatim>\<open>mknoteid\<close>, lines 241 and 242.\<close>

definition mknoteid :: "string \<Rightarrow> nat \<Rightarrow> string" where
  "mknoteid grp num = ''_n'' @ grp @ ''_'' @ unicode_nat num"

text \<open>
  Lines 167 to 188 of \<^verbatim>\<open>xwriteReference\<close>: the bookkeeping of a registration. The
  result is \<^verbatim>\<open>note_seq_num\<close>, \<^verbatim>\<open>noteid\<close> and \<^verbatim>\<open>refid\<close> with the writer after the
  registration. A name that is missing or empty makes the reference an unnamed one.
\<close>

definition register_reference :: "writer \<Rightarrow> node \<Rightarrow> (nat \<times> string \<times> string) \<times> writer" where
  "register_reference w obj =
     (let grp = attr_get obj ''group'' [];
          refs = group_references w grp;
          ref_name = attr_get obj ''name'' []
      in if ref_name \<noteq> [] then
           (let ref_name = replace_char CHR '' '' CHR ''_'' ref_name;
                named = group_namedrefs w grp
            in case map_of named ref_name of
                 None \<Rightarrow>
                   (let refs' = refs @ [obj];
                        named_ref_first = length refs';
                        noteid = mknoteid grp named_ref_first;
                        refid = ''_r'' @ noteid @ ''_'' @ unicode_nat 0
                    in ((named_ref_first, noteid, refid),
                        w\<lparr> references := AList.update grp refs' (references w),
                           namedrefs := AList.update grp
                             (AList.update ref_name (named_ref_first, 1) named) (namedrefs w) \<rparr>))
               | Some (named_ref_first, named_ref_count) \<Rightarrow>
                   (let noteid = mknoteid grp named_ref_first;
                        refid = ''_r'' @ noteid @ ''_'' @ unicode_nat named_ref_count
                    in ((named_ref_first, noteid, refid),
                        w\<lparr> references := AList.update grp refs (references w),
                           namedrefs := AList.update grp
                             (AList.update ref_name (named_ref_first, named_ref_count + 1) named)
                             (namedrefs w) \<rparr>)))
         else
           (let refs' = refs @ [obj];
                note_seq_num = length refs';
                noteid = mknoteid grp note_seq_num;
                refid = ''_r'' @ noteid
            in ((note_seq_num, noteid, refid),
                w\<lparr> references := AList.update grp refs' (references w) \<rparr>)))"

text \<open>\<^verbatim>\<open>xwriteReference\<close>, lines 165 to 196: the inline marker.\<close>

definition xwriteReference :: "writer \<Rightarrow> node \<Rightarrow> handled \<times> writer" where
  "xwriteReference w obj =
     (case register_reference w obj of
        ((note_seq_num, noteid, refid), w') \<Rightarrow>
          (let grp = attr_get obj ''group'' [];
               atext = ''['' @ strip (grp @ '' '' @ unicode_nat note_seq_num) @ '']''
           in (SkipChildren (Some (Element ''a''
                 [(''id'', refid), (''href'', ''#''),
                  (''onClick'', ''return s('' @ [CHR 0x27] @ noteid @ [CHR 0x27] @ '')'')]
                 atext [] [])), w')))"

text \<open>The upwards arrow (code point 2191) of the back links, in UTF-8.\<close>

definition uparrow :: string where
  "uparrow = [CHR 0xE2, CHR 0x86, CHR 0x91]"

definition backref :: "string \<Rightarrow> string \<Rightarrow> string \<Rightarrow> element" where
  "backref ref_id text tail_text =
     Element ''a'' [(''href'', ''#'' @ ref_id),
                    (''onClick'', ''return s('' @ [CHR 0x27] @ ref_id @ [CHR 0x27] @ '')'')] text tail_text []"

text \<open>
  One pass of the loop of \<^verbatim>\<open>xwriteReferenceList\<close>, lines 208 to 238: the list item
  of the reference at index \<open>i\<close>. The item is made with the element \<^verbatim>\<open>b\<close> of the
  back links as its only child, and \<^verbatim>\<open>self.writeChildren(ref, parent=li)\<close> of the
  base class then writes the content of the reference into it: \<open>writeChildren ref li\<close>
  is the item after that call.
\<close>

definition reference_item ::
  "(node \<Rightarrow> element \<Rightarrow> element) \<Rightarrow> string \<Rightarrow> (string \<times> nat \<times> nat) list \<Rightarrow> nat \<Rightarrow> node
     \<Rightarrow> element" where
  "reference_item writeChildren grp named i ref =
     (let noteid = mknoteid grp (i + 1);
          ref_name = attr_get ref ''name'' [];
          b = (case (if ref_name \<noteq> [] then map_of named ref_name else None) of
                 Some (first, name_ref_count) \<Rightarrow>
                   if name_ref_count = 1 then
                     Element ''b'' [] [] '' '' [backref (''_r'' @ noteid @ ''_'' @ unicode_nat 0) uparrow []]
                   else
                     Element ''b'' [] (uparrow @ '' '') '' ''
                       [Element ''sup'' [] [] []
                          (map (\<lambda>j. backref (''_r'' @ noteid @ ''_'' @ unicode_nat j)
                                     (unicode_nat (j + 1)) '' '') [0..<name_ref_count])]
               | None \<Rightarrow> Element ''b'' [] [] '' '' [backref (''_r'' @ noteid) uparrow []])
      in writeChildren ref (Element ''li'' [(''id'', noteid)] [] [] [b]))"

text \<open>
  \<^verbatim>\<open>xwriteReferenceList\<close>, lines 198 to 239. \<^verbatim>\<open>pop(group)\<close> is called without a
  default, so a group that is not a key raises \<^verbatim>\<open>KeyError\<close> with the group.
\<close>

definition xwriteReferenceList ::
  "(node \<Rightarrow> element \<Rightarrow> element) \<Rightarrow> writer \<Rightarrow> node \<Rightarrow> exn + handled \<times> writer" where
  "xwriteReferenceList writeChildren w t =
     (if references w = [] then Inr (NoElement, w)
      else
        (let grp = attr_get t ''group'' []
         in case map_of (references w) grp of
              None \<Rightarrow> Inl (KeyError (U grp))
            | Some refs \<Rightarrow>
                (let w' = w\<lparr> references := AList.delete grp (references w) \<rparr>
                 in if refs = [] then Inr (NoElement, w')
                    else
                      (let named = group_namedrefs w' grp;
                           w'' = w'\<lparr> namedrefs := AList.update grp named (namedrefs w') \<rparr>
                       in Inr (Elem (Element ''ol'' [] [] []
                                 (map (\<lambda>(i, ref). reference_item writeChildren grp named i ref)
                                      (enumerate 0 refs))), w'')))))"

section \<open>Batch scheduler\<close>

subsection \<open>Consumer and settings\<close>

text \<open>
  The calls that reach the consumer, in their order: \<^verbatim>\<open>add_metadata(key, value)\<close>,
  \<^verbatim>\<open>add_article(title, serialized, redirect, count, size)\<close> (the size is missing in
  the call for a language link), \<^verbatim>\<open>empty_article(title)\<close>,
  \<^verbatim>\<open>fail_article(title)\<close> and \<^verbatim>\<open>timedout(count)\<close>.
\<close>

datatype report =
    AddMetadata string string
  | AddArticle ustring payload bool bool "int option"
  | EmptyArticle ustring
  | FailArticle ustring
  | TimedOut nat

text \<open>
  The fields of \<^verbatim>\<open>WikiParser\<close> that the two \<^verbatim>\<open>parse\<close> methods read. A
  \<open>requested_article_count\<close> of 0 is the setting without a limit, an \<open>stop\<close> of
  \<open>None\<close> the slice without an end.
\<close>

record parser =
  start :: nat
  stop :: "nat option"
  mp_chunk_size :: nat
  lang_links_langs :: "ustring list"
  requested_article_count :: nat

text \<open>
  \<^verbatim>\<open>WikiParser.articles\<close>, lines 432 to 438: the slice of the titles of the
  database.
\<close>

definition articles :: "parser \<Rightarrow> ustring list \<Rightarrow> ustring list" where
  "articles P titles =
     (case stop P of
        None \<Rightarrow> drop (start P) titles
      | Some e \<Rightarrow> take (e - start P) (drop (start P) titles))"

subsection \<open>Language links\<close>

text \<open>
  \<^verbatim>\<open>process_languagelinks\<close>, lines 534 to 556. The targets are collected without
  repetition, here in the order in which they are met; each target that is not a key of
  the database becomes a redirect that is added without being counted.
\<close>

fun collect_targets :: "wiki \<Rightarrow> ustring list \<Rightarrow> langlinks \<Rightarrow> ustring list \<Rightarrow> ustring list" where
  "collect_targets W langs [] targets = targets"
| "collect_targets W langs ((namespace, target) # links) targets =
     collect_targets W langs links
       (let unqualified_target = drop (length namespace + 1) target
        in if namespace \<in> set langs \<and> find_str target (namespace @ U '':'') > -1
              \<and> reader W unqualified_target = None \<and> unqualified_target \<notin> set targets
           then targets @ [unqualified_target]
           else targets)"

definition process_languagelinks ::
  "wiki \<Rightarrow> parser \<Rightarrow> ustring \<Rightarrow> langlinks option \<Rightarrow> report list" where
  "process_languagelinks W P title languagelinks =
     (case languagelinks of
        None \<Rightarrow> []
      | Some links \<Rightarrow>
          map (\<lambda>target.
                 case mkredirect (get_fqname W target) title of
                   (l_title, l_serialized, l_redirect, l_languagelinks) \<Rightarrow>
                     AddArticle l_title l_serialized True False None)
              (collect_targets W (lang_links_langs P) links []))"

subsection \<open>Sequential mode\<close>

text \<open>
  \<^verbatim>\<open>parse_simple\<close>, lines 458 to 471. The function that is run on a title,
  \<^verbatim>\<open>convert\<close> in the source, is the first argument. The result is the list of
  consumer calls and the exception that left the loop, if one did: the loop catches
  \<^verbatim>\<open>ConvertError\<close> and its subclasses only.
\<close>

fun simple_loop ::
  "(ustring \<Rightarrow> exn + result) \<Rightarrow> wiki \<Rightarrow> parser \<Rightarrow> ustring list \<Rightarrow> report list
     \<Rightarrow> report list \<times> exn option" where
  "simple_loop cv W P [] consumer = (consumer, None)"
| "simple_loop cv W P (a # as) consumer =
     (case cv a of
        Inr (title, serialized, redirect, languagelinks, sz) \<Rightarrow>
          simple_loop cv W P as
            (consumer @ [AddArticle title serialized redirect True (Some sz)]
               @ process_languagelinks W P title languagelinks)
      | Inl e \<Rightarrow>
          if is_EmptyArticleError e then
            simple_loop cv W P as (consumer @ [EmptyArticle (exn_title e)])
          else if is_ConvertError e then
            simple_loop cv W P as (consumer @ [FailArticle (exn_title e)])
          else (consumer, Some e))"

definition parse_simple ::
  "(ustring \<Rightarrow> exn + result) \<Rightarrow> wiki \<Rightarrow> parser \<Rightarrow> ustring list
     \<Rightarrow> report list \<times> exn option" where
  "parse_simple cv W P titles =
     simple_loop cv W P (articles P titles) [AddMetadata ''article_format'' ''html'']"

subsection \<open>Pooled mode\<close>

text \<open>
  \<^verbatim>\<open>parse_mp\<close>, lines 473 to 532. The pool runs beside the scheduler, so what the
  scheduler meets depends on the order of three kinds of events, which a run lists:
  \<^item> \<open>Feed\<close>: the task thread of the current pool asks the iterator \<^verbatim>\<open>chunk\<close> for
    its next title and hands it to a worker, or finds the iterator exhausted;
  \<^item> \<open>Done i\<close>: \<^verbatim>\<open>resulti.next\<close> delivers the outcome of the title at index \<open>i\<close>
    of those that are with the workers;
  \<^item> \<open>Timeout n\<close>: \<^verbatim>\<open>resulti.next\<close> raises \<^verbatim>\<open>TimeoutError\<close> while \<open>n\<close> child
    processes are alive.
  \<^verbatim>\<open>resulti.next\<close> raises \<^verbatim>\<open>StopIteration\<close> once the task thread has found the
  iterator exhausted and every outcome was delivered.
\<close>

datatype event = Feed | Done nat | Timeout nat

text \<open>
  The variables of \<^verbatim>\<open>parse_mp\<close>. The generator \<^verbatim>\<open>articles\<close> is the list of the
  titles that it has not yet yielded; \<^verbatim>\<open>chunk = islice(articles, mp_chunk_size)\<close> is
  an iterator over that same generator, given by the number of titles that it may still
  take from it.
\<close>

record mp_state =
  articles_left :: "ustring list"
  chunk_left :: nat
  fed_all :: bool
  pending :: "ustring list"
  iter_count :: nat
  real_article_count :: nat
  consumer :: "report list"

datatype exit = Drained | Returned | Raised exn

text \<open>The task thread takes the next title of \<^verbatim>\<open>chunk\<close>.\<close>

definition feed :: "mp_state \<Rightarrow> mp_state" where
  "feed s =
     (case articles_left s of
        [] \<Rightarrow> s\<lparr> fed_all := True \<rparr>
      | a # as \<Rightarrow>
          if chunk_left s = 0 then s\<lparr> fed_all := True \<rparr>
          else s\<lparr> articles_left := as, chunk_left := chunk_left s - 1,
                  pending := pending s @ [a] \<rparr>)"

text \<open>
  Lines 490 to 508 and 518 to 521: what the scheduler does with the outcome that
  \<^verbatim>\<open>resulti.next\<close> delivers. An exception is raised by \<^verbatim>\<open>next\<close> itself, before
  \<^verbatim>\<open>iter_count\<close> is incremented; one that is no \<^verbatim>\<open>ConvertError\<close> leaves
  \<^verbatim>\<open>parse_mp\<close>. The consumer is taken not to raise, and the handlers of
  \<^verbatim>\<open>AssertionError\<close> and \<^verbatim>\<open>KeyboardInterrupt\<close> are left out: \<open>convert\<close> raises
  neither.
\<close>

definition handle_outcome ::
  "wiki \<Rightarrow> parser \<Rightarrow> exn + result \<Rightarrow> mp_state \<Rightarrow> exit option \<times> mp_state" where
  "handle_outcome W P outcome s =
     (case outcome of
        Inr (title, serialized, redirect, languagelinks, sz) \<Rightarrow>
          (let s1 = s\<lparr> iter_count := iter_count s + 1 \<rparr>
           in if requested_article_count P \<noteq> 0 then
                if \<not> redirect then
                  (let s2 = s1\<lparr> real_article_count := real_article_count s1 + 1,
                                consumer := consumer s1
                                  @ [AddArticle title serialized redirect True (Some sz)]
                                  @ process_languagelinks W P title languagelinks \<rparr>
                   in if real_article_count s2 \<ge> requested_article_count P
                      then (Some Returned, s2)
                      else (None, s2))
                else (None, s1)
              else
                (None, s1\<lparr> consumer := consumer s1
                             @ [AddArticle title serialized redirect True (Some sz)]
                             @ process_languagelinks W P title languagelinks \<rparr>))
      | Inl e \<Rightarrow>
          if is_EmptyArticleError e then
            (None, s\<lparr> consumer := consumer s @ [EmptyArticle (exn_title e)] \<rparr>)
          else if is_ConvertError e then
            (None, s\<lparr> consumer := consumer s @ [FailArticle (exn_title e)] \<rparr>)
          else (Some (Raised e), s))"

text \<open>
  Lines 511 to 515: the timeout is reported, \<^verbatim>\<open>reset_pool\<close> terminates the pool,
  with it the work that its workers hold, and \<^verbatim>\<open>imap_unordered\<close> is called again on
  the iterator \<^verbatim>\<open>chunk\<close>, which has given away the titles that were fed before.
\<close>

definition on_timeout :: "nat \<Rightarrow> mp_state \<Rightarrow> mp_state" where
  "on_timeout n s = s\<lparr> consumer := consumer s @ [TimedOut n], pending := [], fed_all := False \<rparr>"

text \<open>One event; \<open>None\<close> when the event cannot happen in the state.\<close>

fun on_event ::
  "(ustring \<Rightarrow> exn + result) \<Rightarrow> wiki \<Rightarrow> parser \<Rightarrow> event \<Rightarrow> mp_state
     \<Rightarrow> (exit option \<times> mp_state) option" where
  "on_event cv W P Feed s = (if fed_all s then None else Some (None, feed s))"
| "on_event cv W P (Done i) s =
     (if i < length (pending s)
      then Some (handle_outcome W P (cv (pending s ! i))
                   (s\<lparr> pending := take i (pending s) @ drop (Suc i) (pending s) \<rparr>))
      else None)"
| "on_event cv W P (Timeout n) s = Some (None, on_timeout n s)"

text \<open>
  The inner loop, lines 488 to 526, on the events of a run. \<open>None\<close>: the events end
  before the loop does, or name an event that cannot happen.
\<close>

fun drain ::
  "(ustring \<Rightarrow> exn + result) \<Rightarrow> wiki \<Rightarrow> parser \<Rightarrow> event list \<Rightarrow> mp_state
     \<Rightarrow> (exit \<times> mp_state \<times> event list) option" where
  "drain cv W P [] s = (if fed_all s \<and> pending s = [] then Some (Drained, s, []) else None)"
| "drain cv W P (e # evs) s =
     (if fed_all s \<and> pending s = [] then Some (Drained, s, e # evs)
      else (case on_event cv W P e s of
              None \<Rightarrow> None
            | Some (Some x, s') \<Rightarrow> Some (x, s', evs)
            | Some (None, s') \<Rightarrow> drain cv W P evs s'))"

text \<open>
  Lines 482, 483 and 487: the next \<^verbatim>\<open>chunk\<close> is sliced off the generator and given
  to \<^verbatim>\<open>imap_unordered\<close>.
\<close>

definition new_chunk :: "parser \<Rightarrow> mp_state \<Rightarrow> mp_state" where
  "new_chunk P s = s\<lparr> chunk_left := mp_chunk_size P, iter_count := 0, fed_all := False,
                     pending := [] \<rparr>"

text \<open>
  The outer loop, lines 480 to 529: a new chunk is taken as long as the chunk before
  delivered at least one result without an exception. \<open>Returned\<close> is the
  \<^verbatim>\<open>return\<close> of line 505, \<open>Drained\<close> the \<^verbatim>\<open>break\<close> of line 485.
\<close>

function chunks ::
  "(ustring \<Rightarrow> exn + result) \<Rightarrow> wiki \<Rightarrow> parser \<Rightarrow> event list \<Rightarrow> mp_state
     \<Rightarrow> (exit \<times> mp_state) option" where
  "chunks cv W P evs s =
     (if iter_count s \<noteq> 0 then
        (case drain cv W P evs (new_chunk P s) of
           None \<Rightarrow> None
         | Some (Drained, s', evs') \<Rightarrow> chunks cv W P evs' s'
         | Some (Returned, s', evs') \<Rightarrow> Some (Returned, s')
         | Some (Raised e, s', evs') \<Rightarrow> Some (Raised e, s'))
      else Some (Drained, s))"
  by pat_completeness auto
termination
proof (relation "measure (\<lambda>(cv, W, P, evs, s). length evs)")
  show "wf (measure (\<lambda>(cv, W, P, evs, s). length evs))"
    by simp
next
  fix cv :: "ustring \<Rightarrow> exn + result" and W :: wiki and P :: parser
    and evs evs' :: "event list" and s s' :: mp_state
    and r :: "exit \<times> mp_state \<times> event list" and x :: exit and t :: "mp_state \<times> event list"
  assume "iter_count s \<noteq> 0"
    and run: "drain cv W P evs (new_chunk P s) = Some r" "(x, t) = r" "x = Drained"
      "(s', evs') = t"
  have shorter: "length ys \<le> length xs" if "drain cv W P xs u = Some (y, u', ys)"
    for xs ys u u' y
    using that
  proof (induction xs arbitrary: u)
    case Nil
    then show ?case by (simp split: if_splits)
  next
    case (Cons e xs)
    show ?case
    proof (cases "fed_all u \<and> pending u = []")
      case True
      with Cons.prems show ?thesis by simp
    next
      case False
      with Cons.prems Cons.IH show ?thesis
        by (fastforce split: option.splits prod.splits intro: le_SucI)
    qed
  qed
  have "length evs' < length evs"
  proof (cases evs)
    case Nil
    with run show ?thesis by (simp add: new_chunk_def)
  next
    case (Cons e xs)
    with run have "\<exists>u. drain cv W P xs u = Some (x, s', evs') \<or> evs' = xs"
      by (auto simp: new_chunk_def split: option.splits prod.splits)
    with Cons shorter show ?thesis by fastforce
  qed
  then show "((cv, W, P, evs', s'), (cv, W, P, evs, s)) \<in> measure (\<lambda>(cv, W, P, evs, s). length evs)"
    by simp
qed

declare chunks.simps [simp del]

text \<open>\<^verbatim>\<open>parse_mp\<close> on the titles of the database and the events of a run.\<close>

definition parse_mp ::
  "(ustring \<Rightarrow> exn + result) \<Rightarrow> wiki \<Rightarrow> parser \<Rightarrow> ustring list \<Rightarrow> event list
     \<Rightarrow> (exit \<times> mp_state) option" where
  "parse_mp cv W P titles evs =
     chunks cv W P evs
       \<lparr> articles_left = articles P titles, chunk_left = 0, fed_all = False, pending = [],
         iter_count = 1, real_article_count = 0,
         consumer = [AddMetadata ''article_format'' ''html''] \<rparr>"

section \<open>Vocabulary of the properties\<close>

text \<open>
  \<open>matches db text alias\<close>: the test of line 177. \<open>first_match db text aliases alias\<close>:
  \<open>alias\<close> is the first of \<open>aliases\<close> that the text matches.
\<close>

definition matches :: "unicode_db \<Rightarrow> ustring \<Rightarrow> ustring \<Rightarrow> bool" where
  "matches db text alias = (startswith text alias \<or> startswith (upper db text) alias)"

definition first_match :: "unicode_db \<Rightarrow> ustring \<Rightarrow> ustring list \<Rightarrow> ustring \<Rightarrow> bool" where
  "first_match db text aliases alias =
     (List.find (matches db text) aliases = Some alias)"

text \<open>What line 178 leaves of the text after the alias.\<close>

definition remainder :: "unicode_db \<Rightarrow> ustring \<Rightarrow> ustring \<Rightarrow> ustring" where
  "remainder db text alias = lstrip db (drop (length alias) text)"

text \<open>
  \<open>occurs_at text sub i\<close>: \<open>sub\<close> is read in \<open>text\<close> from index \<open>i\<close> on.
  \<open>first_at text sub i\<close>: \<open>i\<close> is the lowest such index.
\<close>

definition occurs_at :: "'a list \<Rightarrow> 'a list \<Rightarrow> nat \<Rightarrow> bool" where
  "occurs_at text sub i = startswith (drop i text) sub"

definition first_at :: "'a list \<Rightarrow> 'a list \<Rightarrow> nat \<Rightarrow> bool" where
  "first_at text sub i = (occurs_at text sub i \<and> \<not> list_ex (occurs_at text sub) [0..<i])"

definition absent :: "'a list \<Rightarrow> 'a list \<Rightarrow> bool" where
  "absent text sub = (\<not> list_ex (occurs_at text sub) [0..<Suc (length text)])"

text \<open>
  The parts of a registration: the sequence number of the inline marker, the id of the
  marker, and the writer after the registration.
\<close>

definition seq_num :: "writer \<Rightarrow> node \<Rightarrow> nat" where
  "seq_num w obj = fst (fst (register_reference w obj))"

definition refid_of :: "writer \<Rightarrow> node \<Rightarrow> string" where
  "refid_of w obj = snd (snd (fst (register_reference w obj)))"

definition registered :: "writer \<Rightarrow> node \<Rightarrow> writer" where
  "registered w obj = snd (register_reference w obj)"

text \<open>The name of a reference as it is looked up, and what is recorded under it.\<close>

definition ref_key :: "node \<Rightarrow> string" where
  "ref_key obj = replace_char CHR '' '' CHR ''_'' (attr_get obj ''name'' [])"

definition named_entry :: "writer \<Rightarrow> node \<Rightarrow> (nat \<times> nat) option" where
  "named_entry w obj = map_of (group_namedrefs w (attr_get obj ''group'' [])) (ref_key obj)"

text \<open>
  The reports that tell the outcome of a title: a counted addition (an article or a
  redirect of the database), \<^verbatim>\<open>empty_article\<close> and \<^verbatim>\<open>fail_article\<close>. The
  redirect made from a language link is added with \<^verbatim>\<open>count=False\<close> and is no outcome.
\<close>

fun is_outcome :: "report \<Rightarrow> bool" where
  "is_outcome (AddArticle title serialized redirect count sz) = count"
| "is_outcome (EmptyArticle title) = True"
| "is_outcome (FailArticle title) = True"
| "is_outcome r = False"

fun report_title :: "report \<Rightarrow> ustring" where
  "report_title (AddArticle title serialized redirect count sz) = title"
| "report_title (EmptyArticle title) = title"
| "report_title (FailArticle title) = title"
| "report_title r = []"

text \<open>The titles with an outcome, in the order of the reports, and the number of outcomes of a title.\<close>

definition reported :: "report list \<Rightarrow> ustring list" where
  "reported log = map report_title (filter is_outcome log)"

definition outcomes :: "ustring \<Rightarrow> report list \<Rightarrow> nat" where
  "outcomes t log = length (filter (\<lambda>title. title = t) (reported log))"

text \<open>The counted additions that are no redirects, and those that are.\<close>

fun counted_article :: "report \<Rightarrow> bool" where
  "counted_article (AddArticle title serialized redirect count sz) = (count \<and> \<not> redirect)"
| "counted_article r = False"

fun counted_redirect :: "report \<Rightarrow> bool" where
  "counted_redirect (AddArticle title serialized redirect count sz) = (count \<and> redirect)"
| "counted_redirect r = False"

definition counted_articles :: "report list \<Rightarrow> nat" where
  "counted_articles log = length (filter counted_article log)"

text \<open>What a run of \<open>parse_mp\<close> shows to the outside: how it ended and the consumer calls.\<close>

definition run_log :: "(exit \<times> mp_state) option \<Rightarrow> (exit \<times> report list) option" where
  "run_log r = (case r of None \<Rightarrow> None | Some (x, s) \<Rightarrow> Some (x, consumer s))"

text \<open>\<open>is_redirect outcome\<close>: the outcome is a result whose redirect flag is set.\<close>

definition is_redirect :: "exn + result \<Rightarrow> bool" where
  "is_redirect outcome =
     (case outcome of Inl e \<Rightarrow> False | Inr (title, serialized, redirect, rest) \<Rightarrow> redirect)"

text \<open>
  What holds of the variables of \<open>parse_mp\<close> at the head of the inner loop when an
  article count is requested, and what holds when \<open>parse_mp\<close> is left: the counter
  equals the number of counted articles and stays below the requested count until the
  \<^verbatim>\<open>return\<close> of line 505, which follows the report that reaches it; the titles not
  yet yielded are a rest of the slice.
\<close>

definition limit_inv :: "parser \<Rightarrow> ustring list \<Rightarrow> mp_state \<Rightarrow> bool" where
  "limit_inv P T s =
     (counted_articles (consumer s) = real_article_count s
      \<and> real_article_count s < requested_article_count P
      \<and> (\<exists>fed. T = fed @ articles_left s))"

definition limit_post :: "wiki \<Rightarrow> parser \<Rightarrow> ustring list \<Rightarrow> exit \<Rightarrow> mp_state \<Rightarrow> bool" where
  "limit_post W P T x s =
     ((\<exists>fed. T = fed @ articles_left s)
      \<and> (if x = Returned
          then counted_articles (consumer s) = requested_article_count P
            \<and> (\<exists>log title serialized sz ll.
                  consumer s = log @ AddArticle title serialized False True (Some sz)
                                   # process_languagelinks W P title ll
                  \<and> counted_articles log + 1 = requested_article_count P)
          else counted_articles (consumer s) < requested_article_count P))"

text \<open>
  What holds of the variables of \<open>parse_mp\<close> throughout a run on a slice without
  repeated titles: the titles with an outcome, those with the workers and those not yet
  yielded are all different and of the slice; with an article count requested no
  redirect was added as counted.
\<close>

definition pooled_inv :: "parser \<Rightarrow> ustring list \<Rightarrow> mp_state \<Rightarrow> bool" where
  "pooled_inv P T s =
     (distinct (reported (consumer s) @ pending s @ articles_left s)
      \<and> set (reported (consumer s) @ pending s @ articles_left s) \<subseteq> set T
      \<and> (requested_article_count P \<noteq> 0 \<longrightarrow> filter counted_redirect (consumer s) = []))"

section \<open>A small database\<close>

text \<open>
  A Unicode database that knows the Latin-1 and the Cyrillic letters and the white space
  of Unicode 5.2, and the strings of the doctests of \<open>parse_redirect\<close> that are not
  ASCII, as lists of code points: the Russian alias of the doctests in lower case,
  capitalised and in upper case, the three Cyrillic letters of its target (code points 1072
  to 1074), and the letter e with an acute accent in lower case (233) and in upper
  case (201).
\<close>

definition example_db :: unicode_db where
  "example_db =
     \<lparr> db_upper = (\<lambda>c. if (224 \<le> c \<and> c \<le> 254 \<and> c \<noteq> 247) \<or> (1072 \<le> c \<and> c \<le> 1103)
                        then c - 32
                        else if 1104 \<le> c \<and> c \<le> 1119 then c - 80
                        else if c = 255 then 376
                        else if c = 181 then 924
                        else c),
       db_space = (\<lambda>c. c \<in> {133, 160, 5760, 6158, 8232, 8233, 8239, 8287, 12288}
                        \<or> (8192 \<le> c \<and> c \<le> 8202)) \<rparr>"

definition perenapr_lower :: ustring where
  "perenapr_lower = [35, 1087, 1077, 1088, 1077, 1085, 1072, 1087, 1088]"

definition perenapr_title :: ustring where
  "perenapr_title = [35, 1055, 1077, 1088, 1077, 1085, 1072, 1087, 1088]"

definition perenapr_upper :: ustring where
  "perenapr_upper = [35, 1055, 1045, 1056, 1045, 1053, 1040, 1055, 1056]"

definition abv :: ustring where
  "abv = [1072, 1073, 1074]"

definition e_acute :: ustring where
  "e_acute = [233]"

definition E_acute :: ustring where
  "E_acute = [201]"

text \<open>
  A database of six articles with stub collaborators, on which the properties below are
  run: a redirect, an empty text, a text that is \<^verbatim>\<open>None\<close>, a plain article, a
  redirect without closing brackets and a redirect with an empty target.
\<close>

definition example_wiki :: wiki where
  "example_wiki =
     \<lparr> py_unicode = example_db,
       reader = map_of
         [(U ''R'', (Some (U ''#REDIRECT [[A]]''), 15)), (U ''E'', (Some [], 0)),
          (U ''N'', (None, 0)), (U ''A'', (Some (U ''text''), 4)),
          (U ''B'', (Some (U ''#redirect [[A''), 13)),
          (U ''Z'', (Some (U ''#REDIRECT [[]]''), 14))],
       redirect_aliases = [U ''#REDIRECT''],
       get_fqname = (\<lambda>s. s),
       rtl = False,
       wfilters = \<lparr> EXCLUDE_PAGES = [], EXCLUDE_CLASSES = [''foo''], EXCLUDE_IDS = [],
                    REGEX = [] \<rparr>,
       parseString = (\<lambda>title raw. Inr (Node ''Article'' [] ''parsed'' [])),
       preprocess = (\<lambda>obj. Inr obj),
       writer_write = (\<lambda>obj. Inr (Element ''div'' [] (caption obj) [] [], [])),
       tostring = (\<lambda>e. Inr (etext e)),
       re_sub = (\<lambda>re sub text. Inr text) \<rparr>"

text \<open>
  The database of the examples with an alias before \<^verbatim>\<open>#REDIRECT\<close> that ends with an
  opening bracket.
\<close>

definition bracket_alias_wiki :: wiki where
  "bracket_alias_wiki = example_wiki \<lparr> redirect_aliases := [U ''#REDIRECT ['', U ''#REDIRECT''] \<rparr>"

text \<open>A reference node with the given group and name, and an element with a class.\<close>

definition example_ref :: "string \<Rightarrow> string \<Rightarrow> node" where
  "example_ref grp name = Node ''Reference'' [(''group'', grp), (''name'', name)] [] []"

definition example_div :: "string \<Rightarrow> node" where
  "example_div classes = Node ''Div'' [(''class'', classes)] [] []"

text \<open>Settings of the scheduler: chunks of the given size, the given article count.\<close>

definition example_parser :: "nat \<Rightarrow> nat \<Rightarrow> parser" where
  "example_parser chunk_size article_count =
     \<lparr> start = 0, stop = None, mp_chunk_size = chunk_size, lang_links_langs = [],
       requested_article_count = article_count \<rparr>"

section \<open>Properties of the redirect resolver\<close>

lemmas string_defs =
  U_def toupper_def isspace_def startswith_def upper_def lstrip_def find_str_def
  slice_def clip_index_def remainder_def

lemmas example_strings =
  example_db_def perenapr_lower_def perenapr_title_def perenapr_upper_def abv_def
  e_acute_def E_acute_def

lemma occurs_at_0: "occurs_at tx sub 0 = startswith tx sub"
  by (simp add: occurs_at_def)

lemma occurs_at_Suc: "occurs_at (c # cs) sub (Suc i) = occurs_at cs sub i"
  by (simp add: occurs_at_def)

lemma occurs_at_beyond: "occurs_at tx sub i \<Longrightarrow> length tx < i \<Longrightarrow> occurs_at tx sub (length tx)"
  by (simp add: occurs_at_def startswith_def)

lemma find_from_first:
  "occurs_at tx sub i \<Longrightarrow> \<forall>j<i. \<not> occurs_at tx sub j \<Longrightarrow> find_from sub tx k = int (k + i)"
proof (induction tx arbitrary: i k)
  case Nil
  from Nil.prems(1) have sub: "sub = []"
    by (simp add: occurs_at_def startswith_def)
  then have "occurs_at [] sub 0"
    by (simp add: occurs_at_def startswith_def)
  with Nil.prems(2) have "i = 0"
    by (cases i) auto
  with sub show ?case by simp
next
  case (Cons c cs)
  show ?case
  proof (cases "startswith (c # cs) sub")
    case True
    then have "occurs_at (c # cs) sub 0" by (simp add: occurs_at_0)
    with Cons.prems(2) have "i = 0" by (cases i) auto
    with True show ?thesis by simp
  next
    case False
    with Cons.prems(1) obtain i' where i: "i = Suc i'"
      by (cases i) (auto simp: occurs_at_0)
    from Cons.prems(1) i have "occurs_at cs sub i'"
      by (simp add: occurs_at_Suc)
    moreover have "\<forall>j<i'. \<not> occurs_at cs sub j"
    proof (intro allI impI)
      fix j
      assume "j < i'"
      with i have "Suc j < i" by simp
      with Cons.prems(2) have "\<not> occurs_at (c # cs) sub (Suc j)" by blast
      then show "\<not> occurs_at cs sub j" by (simp add: occurs_at_Suc)
    qed
    ultimately have "find_from sub cs (Suc k) = int (Suc k + i')"
      by (rule Cons.IH)
    with False i show ?thesis by simp
  qed
qed

lemma find_from_absent:
  "\<forall>i\<le>length tx. \<not> occurs_at tx sub i \<Longrightarrow> find_from sub tx k = -1"
proof (induction tx arbitrary: k)
  case Nil
  then show ?case by (simp add: occurs_at_def startswith_def)
next
  case (Cons c cs)
  from Cons.prems have "\<not> startswith (c # cs) sub"
    using occurs_at_0 by blast
  moreover have "\<forall>i\<le>length cs. \<not> occurs_at cs sub i"
  proof (intro allI impI)
    fix i
    assume "i \<le> length cs"
    then have "Suc i \<le> length (c # cs)" by simp
    with Cons.prems have "\<not> occurs_at (c # cs) sub (Suc i)" by blast
    then show "\<not> occurs_at cs sub i" by (simp add: occurs_at_Suc)
  qed
  ultimately show ?case using Cons.IH by simp
qed

lemma find_str_first: "first_at tx sub i \<Longrightarrow> find_str tx sub = int i"
  using find_from_first [of tx sub i 0]
  by (auto simp: first_at_def find_str_def list_ex_iff)

lemma find_str_absent: "absent tx sub \<Longrightarrow> find_str tx sub = -1"
proof -
  assume "absent tx sub"
  then have "\<forall>i\<le>length tx. \<not> occurs_at tx sub i"
    by (auto simp: absent_def list_ex_iff less_Suc_eq_le)
  then show ?thesis
    unfolding find_str_def by (rule find_from_absent)
qed

lemma parse_redirect_no_match:
  "\<not> list_ex (matches db tx) aliases \<Longrightarrow> parse_redirect db tx aliases = Inr None"
  by (induction aliases) (auto simp: matches_def)

lemma parse_redirect_first_match:
  "first_match db tx aliases alias \<Longrightarrow>
   parse_redirect db tx aliases =
     (if find_str (remainder db tx alias) (U ''[['') < 0
         \<or> find_str (remainder db tx alias) (U '']]'') < 0
      then Inl (BadRedirect (remainder db tx alias))
      else Inr (Some (slice (remainder db tx alias)
                        (find_str (remainder db tx alias) (U ''[['') + 2)
                        (find_str (remainder db tx alias) (U '']]'')))))"
  by (induction aliases)
     (auto simp: first_match_def matches_def remainder_def Let_def split: if_splits)

lemma slice_nat: "slice tx (int b + 2) (int e) = take (e - (b + 2)) (drop (b + 2) tx)"
  by (cases "e \<le> length tx"; cases "b + 2 \<le> length tx")
     (auto simp: slice_def clip_index_def Let_def min_def nat_add_distrib)

lemma parse_redirect_target:
  assumes "first_match db tx aliases alias"
    and "first_at (remainder db tx alias) (U ''[['') b"
    and "first_at (remainder db tx alias) (U '']]'') e"
  shows "parse_redirect db tx aliases =
           Inr (Some (take (e - (b + 2)) (drop (b + 2) (remainder db tx alias))))"
  using assms
  by (simp add: parse_redirect_first_match find_str_first slice_nat)

lemma parse_redirect_bad:
  assumes "first_match db tx aliases alias"
    and "absent (remainder db tx alias) (U ''[['') \<or> absent (remainder db tx alias) (U '']]'')"
  shows "parse_redirect db tx aliases = Inl (BadRedirect (remainder db tx alias))"
  using assms
  by (auto simp: parse_redirect_first_match find_str_absent)

text \<open>
  The example of the specification. An alias without \<^verbatim>\<open>[\<close> (code point 91) that the
  text \<^verbatim>\<open>#REDIRECT [[Target]]\<close> matches is at most ten code points long, in every Unicode
  database, and what is left after at most ten code points has the target between its
  brackets.
\<close>

lemma example_short_alias:
  assumes "k \<le> 10"
  shows "(let r = lstrip db (drop k (U ''#REDIRECT [[Target]]''))
          in (find_str r (U ''[['') \<ge> 0 \<and> find_str r (U '']]'') \<ge> 0
              \<and> slice r (find_str r (U ''[['') + 2) (find_str r (U '']]'')) = U ''Target''))"
proof -
  from assms have "k \<in> {0, 1, 2, 3, 4, 5, 6, 7, 8, 9, 10}"
    by (simp; arith)
  then show ?thesis
    by (elim insertE emptyE) (simp_all add: string_defs)
qed

lemma bracket_free_match_short:
  assumes "matches db (U ''#REDIRECT [[Target]]'') a" and "91 \<notin> set a"
  shows "length a \<le> 10"
proof (rule ccontr)
  assume "\<not> length a \<le> 10"
  then have len: "10 < length a" by simp
  from assms(1) have "a ! 10 = 91"
  proof (unfold matches_def, elim disjE)
    assume "startswith (U ''#REDIRECT [[Target]]'') a"
    then have "take (length a) (U ''#REDIRECT [[Target]]'') ! 10 = a ! 10"
      by (simp add: startswith_def)
    with len show ?thesis by (simp add: U_def)
  next
    assume "startswith (upper db (U ''#REDIRECT [[Target]]'')) a"
    then have "take (length a) (upper db (U ''#REDIRECT [[Target]]'')) ! 10 = a ! 10"
      by (simp add: startswith_def)
    with len show ?thesis by (simp add: U_def upper_def toupper_def)
  qed
  with len assms(2) show False
    by (metis nth_mem)
qed

lemma parse_redirect_example:
  assumes "U ''#REDIRECT'' \<in> set aliases" and "\<not> list_ex (\<lambda>a. 91 \<in> set a) aliases"
  shows "parse_redirect db (U ''#REDIRECT [[Target]]'') aliases = Inr (Some (U ''Target''))"
proof -
  let ?t = "U ''#REDIRECT [[Target]]''"
  have "matches db ?t (U ''#REDIRECT'')"
    by (simp add: matches_def startswith_def U_def)
  with assms(1) obtain a where a: "first_match db ?t aliases a"
    unfolding first_match_def
    by (cases "List.find (matches db ?t) aliases") (auto simp: find_None_iff)
  then have "a \<in> set aliases" "matches db ?t a"
    unfolding first_match_def by (auto simp: find_Some_iff)
  with assms(2) have "length a \<le> 10"
    by (auto intro: bracket_free_match_short simp: list_ex_iff)
  from example_short_alias [OF this, of db] show ?thesis
    by (simp add: parse_redirect_first_match [OF a] remainder_def Let_def)
qed

text \<open>
  The doctests of \<^verbatim>\<open>parse_redirect\<close>, lines 137 to 173, in their order. The fourth
  target begins with the code point 379; the fifth and the sixth have the Russian alias,
  the sixth matching through the upper-cased text.
\<close>

lemma parse_redirect_doctests:
  "parse_redirect example_db (U ''#PATRZ [[Zmora]]'')
     [U ''#PATRZ'', U ''#PRZEKIERUJ'', U ''#TAM'', U ''#REDIRECT''] = Inr (Some (U ''Zmora''))"
  "parse_redirect example_db (U ''#PATRZ[[Zmora]]'')
     [U ''#PATRZ'', U ''#PRZEKIERUJ'', U ''#TAM'', U ''#REDIRECT''] = Inr (Some (U ''Zmora''))"
  "parse_redirect example_db (U ''#PRZEKIERUJ [[Uwierzytelnianie]]'')
     [U ''#PATRZ'', U ''#PRZEKIERUJ'', U ''#TAM'', U ''#REDIRECT'']
     = Inr (Some (U ''Uwierzytelnianie''))"
  "parse_redirect example_db (U ''#TAM[['' @ [379] @ U ''uraw samochodowy]]'')
     [U ''#PATRZ'', U ''#PRZEKIERUJ'', U ''#TAM'', U ''#REDIRECT'']
     = Inr (Some ([379] @ U ''uraw samochodowy''))"
  "parse_redirect example_db (perenapr_lower @ U ''[['' @ abv @ U '']]'') [perenapr_lower]
     = Inr (Some abv)"
  "parse_redirect example_db (perenapr_title @ U ''[['' @ abv @ U '']]'')
     [perenapr_lower, upper example_db perenapr_lower] = Inr (Some abv)"
  "parse_redirect example_db (U ''abc'')
     [U ''#PATRZ'', U ''#PRZEKIERUJ'', U ''#TAM'', U ''#REDIRECT''] = Inr None"
  "parse_redirect example_db (U ''#REDIRECT [[abc'')
     [U ''#PATRZ'', U ''#PRZEKIERUJ'', U ''#TAM'', U ''#REDIRECT'']
     = Inl (BadRedirect (U ''[[abc''))"
  "parse_redirect example_db (U ''#REDIRECT abc'')
     [U ''#PATRZ'', U ''#PRZEKIERUJ'', U ''#TAM'', U ''#REDIRECT'']
     = Inl (BadRedirect (U ''abc''))"
  "parse_redirect example_db (U ''#REDIRECT '' @ abv)
     [U ''#PATRZ'', U ''#PRZEKIERUJ'', U ''#TAM'', U ''#REDIRECT'']
     = Inl (BadRedirect abv)"
  by (simp_all add: string_defs example_strings)

text \<open>
  Claim C3 says that \<^verbatim>\<open>parse_redirect("#REDIRECT [[Target]]", aliases)\<close> returns
  \<^verbatim>\<open>Target\<close> whenever \<^verbatim>\<open>#REDIRECT\<close> is among the aliases. It does not when an alias
  that comes before it reaches into the brackets: with the aliases
  \<^verbatim>\<open>#REDIRECT [[T\<close> and \<^verbatim>\<open>#REDIRECT\<close> the first alias matches, what remains is
  \<^verbatim>\<open>arget]]\<close>, which has no \<^verbatim>\<open>[[\<close>, and \<^verbatim>\<open>BadRedirect\<close> is raised.
\<close>

theorem example_behind_longer_alias:
  "U ''#REDIRECT'' \<in> set [U ''#REDIRECT [[T'', U ''#REDIRECT'']
   \<and> parse_redirect example_db (U ''#REDIRECT [[Target]]'') [U ''#REDIRECT [[T'', U ''#REDIRECT'']
       = Inl (BadRedirect (U ''arget]]''))"
  by (simp add: string_defs)

text \<open>
  Claim C3, as amended. For every Unicode database, every text and every sequence of
  aliases: when no alias matches the text (as it is or upper-cased), \<open>parse_redirect\<close>
  returns \<^verbatim>\<open>None\<close>; when \<open>alias\<close> is the first alias that matches, the alias and the
  white space after it are removed, and with \<open>b\<close> the first position of \<^verbatim>\<open>[[\<close> and
  \<open>e\<close> the first position of \<^verbatim>\<open>]]\<close> in what remains, the target is the text from
  position \<open>b + 2\<close> up to position \<open>e\<close>; when what remains has no \<^verbatim>\<open>[[\<close> or no
  \<^verbatim>\<open>]]\<close>, \<^verbatim>\<open>BadRedirect\<close> is raised with what remains. The text
  \<^verbatim>\<open>#REDIRECT [[Target]]\<close> gives \<^verbatim>\<open>Target\<close> for aliases that contain
  \<^verbatim>\<open>#REDIRECT\<close> when no alias has a \<^verbatim>\<open>[\<close> (code point 91) in it, whichever of them
  matches first.
\<close>

theorem parse_redirect_spec:
  "(\<not> list_ex (matches db text) aliases \<longrightarrow> parse_redirect db text aliases = Inr None)
   \<and> (first_match db text aliases alias
        \<and> first_at (remainder db text alias) (U ''[['') b
        \<and> first_at (remainder db text alias) (U '']]'') e
      \<longrightarrow> parse_redirect db text aliases =
            Inr (Some (take (e - (b + 2)) (drop (b + 2) (remainder db text alias)))))
   \<and> (first_match db text aliases alias
        \<and> (absent (remainder db text alias) (U ''[['')
            \<or> absent (remainder db text alias) (U '']]''))
      \<longrightarrow> parse_redirect db text aliases = Inl (BadRedirect (remainder db text alias)))
   \<and> (U ''#REDIRECT'' \<in> set aliases \<and> \<not> list_ex (\<lambda>a. 91 \<in> set a) aliases
      \<longrightarrow> parse_redirect db (U ''#REDIRECT [[Target]]'') aliases = Inr (Some (U ''Target'')))"
  using parse_redirect_no_match parse_redirect_target parse_redirect_bad parse_redirect_example
  by blast

theorem parse_redirect_spec_witness:
  "parse_redirect example_db (U ''abc'')
     [U ''#PATRZ'', U ''#PRZEKIERUJ'', U ''#TAM'', U ''#REDIRECT''] = Inr None
   \<and> parse_redirect example_db (U ''#PATRZ [[Zmora]]'')
       [U ''#PATRZ'', U ''#PRZEKIERUJ'', U ''#TAM'', U ''#REDIRECT''] = Inr (Some (U ''Zmora''))
   \<and> parse_redirect example_db (U ''#redirect [[abc'')
       [U ''#PATRZ'', U ''#PRZEKIERUJ'', U ''#TAM'', U ''#REDIRECT'']
       = Inl (BadRedirect (U ''[[abc''))
   \<and> parse_redirect example_db (U ''#REDIRECT [[Target]]'')
       [U ''#PATRZ'', U ''#PRZEKIERUJ'', U ''#TAM'', U ''#REDIRECT''] = Inr (Some (U ''Target''))
   \<and> parse_redirect example_db (perenapr_title @ U ''[['' @ abv @ U '']]'')
       [perenapr_lower, perenapr_upper] = Inr (Some abv)
   \<and> parse_redirect example_db (U ''#r'' @ e_acute @ U ''dir [[x]]'')
       [U ''#R'' @ E_acute @ U ''DIR''] = Inr (Some (U ''x''))"
proof -
  let ?A = "[U ''#PATRZ'', U ''#PRZEKIERUJ'', U ''#TAM'', U ''#REDIRECT'']"
  let ?c = "perenapr_title @ U ''[['' @ abv @ U '']]''"
  let ?C = "[perenapr_lower, perenapr_upper]"
  let ?r = "U ''#r'' @ e_acute @ U ''dir [[x]]''"
  let ?R = "U ''#R'' @ E_acute @ U ''DIR''"
  have none: "\<not> list_ex (matches example_db (U ''abc'')) ?A"
    by (simp add: matches_def string_defs)
  have m1: "first_match example_db (U ''#PATRZ [[Zmora]]'') ?A (U ''#PATRZ'')"
    by (simp add: first_match_def matches_def string_defs)
  have b1: "first_at (remainder example_db (U ''#PATRZ [[Zmora]]'') (U ''#PATRZ'')) (U ''[['') 0"
    by (simp add: first_at_def occurs_at_def string_defs)
  have e1: "first_at (remainder example_db (U ''#PATRZ [[Zmora]]'') (U ''#PATRZ'')) (U '']]'') 7"
    by (simp add: first_at_def occurs_at_def string_defs upt_rec)
  have m2: "first_match example_db (U ''#redirect [[abc'') ?A (U ''#REDIRECT'')"
    by (simp add: first_match_def matches_def string_defs)
  have a2: "absent (remainder example_db (U ''#redirect [[abc'') (U ''#REDIRECT'')) (U ''[['')
              \<or> absent (remainder example_db (U ''#redirect [[abc'') (U ''#REDIRECT'')) (U '']]'')"
    by (simp add: absent_def occurs_at_def string_defs upt_rec)
  have ex: "U ''#REDIRECT'' \<in> set ?A \<and> \<not> list_ex (\<lambda>a. 91 \<in> set a) ?A"
    by (simp add: U_def)
  have m5: "first_match example_db ?c ?C perenapr_upper"
    by (simp add: first_match_def matches_def string_defs example_strings)
  have b5: "first_at (remainder example_db ?c perenapr_upper) (U ''[['') 0"
    by (simp add: first_at_def occurs_at_def string_defs example_strings)
  have e5: "first_at (remainder example_db ?c perenapr_upper) (U '']]'') 5"
    by (simp add: first_at_def occurs_at_def string_defs example_strings upt_rec)
  have m6: "first_match example_db ?r [?R] ?R"
    by (simp add: first_match_def matches_def string_defs example_strings)
  have b6: "first_at (remainder example_db ?r ?R) (U ''[['') 0"
    by (simp add: first_at_def occurs_at_def string_defs example_strings)
  have e6: "first_at (remainder example_db ?r ?R) (U '']]'') 3"
    by (simp add: first_at_def occurs_at_def string_defs example_strings upt_rec)
  note c1 = parse_redirect_spec [THEN conjunct1, rule_format, OF none]
  note c2 = parse_redirect_spec [THEN conjunct2, THEN conjunct1, rule_format,
      OF conjI [OF m1 conjI [OF b1 e1]]]
  note c3 = parse_redirect_spec [THEN conjunct2, THEN conjunct2, THEN conjunct1, rule_format,
      OF conjI [OF m2 a2]]
  note c4 = parse_redirect_spec [THEN conjunct2, THEN conjunct2, THEN conjunct2, rule_format,
      OF ex]
  note c5 = parse_redirect_spec [THEN conjunct2, THEN conjunct1, rule_format,
      OF conjI [OF m5 conjI [OF b5 e5]]]
  note c6 = parse_redirect_spec [THEN conjunct2, THEN conjunct1, rule_format,
      OF conjI [OF m6 conjI [OF b6 e6]]]
  have r2: "take (7 - (0 + 2)) (drop (0 + 2)
              (remainder example_db (U ''#PATRZ [[Zmora]]'') (U ''#PATRZ''))) = U ''Zmora''"
    by (simp add: string_defs)
  have r3: "remainder example_db (U ''#redirect [[abc'') (U ''#REDIRECT'') = U ''[[abc''"
    by (simp add: string_defs)
  have r5: "take (5 - (0 + 2)) (drop (0 + 2) (remainder example_db ?c perenapr_upper)) = abv"
    by (simp add: string_defs example_strings)
  have r6: "take (3 - (0 + 2)) (drop (0 + 2) (remainder example_db ?r ?R)) = U ''x''"
    by (simp add: string_defs example_strings)
  from c1 c2 c3 c4 c5 c6 show ?thesis
    unfolding r2 r3 r5 r6 by (intro conjI)
qed

section \<open>Properties of the pipeline\<close>

lemma lib_error: "lib m = Inl e \<Longrightarrow> \<exists>msg. e = LibraryError msg"
  by (auto simp: lib_def split: sum.splits)

lemma apply_regex_error:
  "apply_regex W items tx = Inl e \<Longrightarrow> \<exists>msg. e = LibraryError msg"
proof (induction items arbitrary: tx)
  case Nil
  then show ?case by simp
next
  case (Cons item items)
  obtain re sub where item: "item = (re, sub)" by (cases item)
  show ?case
  proof (cases "lib (re_sub W re sub tx)")
    case (Inl x)
    with Cons.prems item show ?thesis by (auto simp: seq_def dest: lib_error)
  next
    case (Inr tx')
    with Cons.prems item have "apply_regex W items tx' = Inl e" by (simp add: seq_def)
    then show ?thesis by (rule Cons.IH)
  qed
qed

lemma writer_convert_error:
  "writer_convert W obj = Inl e \<Longrightarrow> \<exists>msg. e = LibraryError msg"
  by (auto simp: writer_convert_def seq_def Let_def split: sum.splits prod.splits dest: lib_error)

lemma render_article_error:
  "render_article W title tx sz = Inl e \<Longrightarrow> (\<exists>msg. e = LibraryError msg) \<or> e = TypeError"
  by (auto simp: render_article_def seq_def call1_def split: sum.splits prod.splits if_splits
      dest: lib_error apply_regex_error writer_convert_error)

lemma render_article_raises: "\<exists>e. render_article W title tx sz = Inl e"
  by (auto simp: render_article_def seq_def call1_def split: sum.splits prod.splits)

lemma parse_redirect_error:
  "parse_redirect db tx aliases = Inl e \<Longrightarrow> \<exists>r. e = BadRedirect r"
  by (induction aliases) (auto simp: Let_def split: if_splits)

lemma get_redirect_error:
  "get_redirect W tx = Inl e \<Longrightarrow> \<exists>r. e = BadRedirect r"
  by (auto simp: get_redirect_def seq_def split: sum.splits option.splits if_splits
      dest: parse_redirect_error)

lemma convert_try_empty:
  "convert_try W title = Inl e \<Longrightarrow> is_EmptyArticleError e \<Longrightarrow>
     e = EmptyArticleError title \<and> (\<exists>sz. reader W title = Some (None, sz) \<or> reader W title = Some (Some [], sz))"
  by (auto simp: convert_try_def seq_def reader_getitem_def reader_getitem_size_def
      split: sum.splits option.splits if_splits prod.splits
      dest!: get_redirect_error render_article_error)

lemma convert_raises:
  "convert W title = Inl e \<Longrightarrow> e = EmptyArticleError title \<or> e = ConvertError title"
  by (auto simp: convert_def split: sum.splits if_splits dest: convert_try_empty)

lemma convert_empty:
  "reader W title = Some (tx, sz) \<Longrightarrow> tx = None \<or> tx = Some [] \<Longrightarrow>
     convert W title = Inl (EmptyArticleError title)"
  by (auto simp: convert_def convert_try_def seq_def reader_getitem_def reader_getitem_size_def)

lemma convert_empty_only:
  "convert W title = Inl (EmptyArticleError title) \<Longrightarrow>
     \<exists>sz. reader W title = Some (None, sz) \<or> reader W title = Some (Some [], sz)"
  by (auto simp: convert_def split: sum.splits if_splits dest: convert_try_empty)

lemma convert_other:
  "convert_try W title = Inl e \<Longrightarrow> \<not> is_EmptyArticleError e \<Longrightarrow>
     convert W title = Inl (ConvertError title)"
  by (simp add: convert_def)

lemma convert_bad_redirect:
  "reader W title = Some (Some tx, sz) \<Longrightarrow> tx \<noteq> [] \<Longrightarrow>
   parse_redirect (py_unicode W) tx (redirect_aliases W) = Inl (BadRedirect r) \<Longrightarrow>
     convert_try W title = Inl (BadRedirect r) \<and> convert W title = Inl (ConvertError title)"
  by (simp add: convert_def convert_try_def seq_def reader_getitem_def reader_getitem_size_def
      get_redirect_def)

lemma convert_render_error:
  "reader W title = Some (Some tx, sz) \<Longrightarrow> tx \<noteq> [] \<Longrightarrow>
   parse_redirect (py_unicode W) tx (redirect_aliases W) = Inr None \<Longrightarrow>
     convert W title = Inl (ConvertError title)"
  using render_article_raises [of W title tx sz] render_article_error [of W title tx sz]
  by (auto simp add: convert_def convert_try_def seq_def reader_getitem_def reader_getitem_size_def
      get_redirect_def)

lemma render_article_result:
  "render_article W title tx sz = Inr r \<Longrightarrow> \<exists>t tags ll. r = package title t tags ll sz"
  by (auto simp: render_article_def seq_def split: sum.splits prod.splits)

lemma convert_title:
  "convert W title = Inr (t, r) \<Longrightarrow> t = title"
  by (auto simp: convert_def convert_try_def seq_def reader_getitem_def reader_getitem_size_def
      mkredirect_def package_def split: sum.splits option.splits if_splits prod.splits
      dest!: render_article_result)




lemmas wiki_defs =
  example_wiki_def convert_def convert_try_def seq_def lib_def reader_getitem_def
  reader_getitem_size_def get_redirect_def render_article_def call1_def mkredirect_def

text \<open>
  Claim C4. For every title: when the text read from the database is empty or
  \<^verbatim>\<open>None\<close>, \<open>convert\<close> raises \<^verbatim>\<open>EmptyArticleError\<close> with the title, and it
  raises that exception in no other case; the scheduler reports it as empty. Every other
  exception of the body, the \<^verbatim>\<open>BadRedirect\<close> of a malformed redirect among them,
  leaves \<open>convert\<close> as \<^verbatim>\<open>ConvertError\<close> with the title, which the scheduler
  reports as failed; no exception of another kind leaves \<open>convert\<close>.
\<close>

theorem convert_errors:
  "(reader W title = Some (text, sz) \<and> (text = None \<or> text = Some [])
      \<longrightarrow> convert W title = Inl (EmptyArticleError title))
   \<and> (convert W title = Inl (EmptyArticleError title)
      \<longrightarrow> (\<exists>n. reader W title = Some (None, n) \<or> reader W title = Some (Some [], n))
        \<and> simple_loop (convert W) W P [title] log = (log @ [EmptyArticle title], None))
   \<and> (convert_try W title = Inl e \<and> \<not> is_EmptyArticleError e
      \<longrightarrow> convert W title = Inl (ConvertError title)
        \<and> simple_loop (convert W) W P [title] log = (log @ [FailArticle title], None))
   \<and> (reader W title = Some (Some raw, sz) \<and> raw \<noteq> []
        \<and> parse_redirect (py_unicode W) raw (redirect_aliases W) = Inl (BadRedirect r)
      \<longrightarrow> convert_try W title = Inl (BadRedirect r)
          \<and> convert W title = Inl (ConvertError title))
   \<and> (convert W title = Inl e' \<longrightarrow> e' = EmptyArticleError title \<or> e' = ConvertError title)"
proof -
  have empty: "simple_loop (convert W) W P [title] log = (log @ [EmptyArticle title], None)"
    if "convert W title = Inl (EmptyArticleError title)"
    using that by simp
  have failed: "simple_loop (convert W) W P [title] log = (log @ [FailArticle title], None)"
    if "convert W title = Inl (ConvertError title)"
    using that by simp
  show ?thesis
    using convert_empty convert_empty_only convert_other convert_bad_redirect convert_raises
      empty failed
    by blast
qed

theorem convert_errors_witness:
  "convert example_wiki (U ''E'') = Inl (EmptyArticleError (U ''E''))
   \<and> convert example_wiki (U ''N'') = Inl (EmptyArticleError (U ''N''))
   \<and> reader example_wiki (U ''E'') = Some (Some [], 0)
   \<and> simple_loop (convert example_wiki) example_wiki (example_parser 1 0) [U ''E''] []
       = ([EmptyArticle (U ''E'')], None)
   \<and> convert_try example_wiki (U ''A'') = Inl TypeError
   \<and> convert example_wiki (U ''A'') = Inl (ConvertError (U ''A''))
   \<and> simple_loop (convert example_wiki) example_wiki (example_parser 1 0) [U ''A''] []
       = ([FailArticle (U ''A'')], None)
   \<and> convert_try example_wiki (U ''B'') = Inl (BadRedirect (U ''[[A''))
   \<and> convert example_wiki (U ''B'') = Inl (ConvertError (U ''B''))"
proof -
  have rE: "reader example_wiki (U ''E'') = Some (Some [], 0) \<and> (Some [] = None \<or> Some [] = Some [])"
    by (simp add: example_wiki_def U_def)
  have rN: "reader example_wiki (U ''N'') = Some (None, 0) \<and> (None = None \<or> None = Some [])"
    by (simp add: example_wiki_def U_def)
  note cE = convert_errors [THEN conjunct1, rule_format, OF rE]
  note cN = convert_errors [THEN conjunct1, rule_format, OF rN]
  note oE = convert_errors [THEN conjunct2, THEN conjunct1, rule_format, OF cE,
      of "example_parser 1 0" "[]"]
  have lE: "reader example_wiki (U ''E'') = Some (Some [], 0)"
    by (simp add: example_wiki_def U_def)
  from oE have sE: "simple_loop (convert example_wiki) example_wiki (example_parser 1 0) [U ''E''] []
       = ([EmptyArticle (U ''E'')], None)"
    by simp
  have tA: "convert_try example_wiki (U ''A'') = Inl TypeError \<and> \<not> is_EmptyArticleError TypeError"
    by (simp add: wiki_defs string_defs)
  note cA = convert_errors [THEN conjunct2, THEN conjunct2, THEN conjunct1, rule_format, OF tA,
      of "example_parser 1 0" "[]"]
  from cA have sA: "simple_loop (convert example_wiki) example_wiki (example_parser 1 0) [U ''A''] []
       = ([FailArticle (U ''A'')], None)"
    by simp
  have rB: "reader example_wiki (U ''B'') = Some (Some (U ''#redirect [[A''), 13) \<and> U ''#redirect [[A'' \<noteq> []
      \<and> parse_redirect (py_unicode example_wiki) (U ''#redirect [[A'') (redirect_aliases example_wiki) = Inl (BadRedirect (U ''[[A''))"
    by (simp add: example_wiki_def string_defs)
  note cB = convert_errors [THEN conjunct2, THEN conjunct2, THEN conjunct2, THEN conjunct1,
      rule_format, OF rB]
  from convert_errors [THEN conjunct2, THEN conjunct2, THEN conjunct2, THEN conjunct2,
      rule_format, OF cA [THEN conjunct1]]
  have "ConvertError (U ''A'') = EmptyArticleError (U ''A'') \<or> ConvertError (U ''A'') = ConvertError (U ''A'')" .
  with cE cN lE sE tA cA sA cB show ?thesis
    by (intro conjI) (elim conjE, assumption)+
qed

lemma empty_target_positions:
  assumes "startswith r (U ''[[]]'')"
  shows "first_at r (U ''[['') 0 \<and> first_at r (U '']]'') 2"
proof -
  from assms obtain rest where r: "r = U ''[[]]'' @ rest"
    by (metis append_take_drop_id startswith_def)
  show ?thesis
    unfolding r by (simp add: first_at_def occurs_at_def startswith_def U_def upt_rec)
qed

lemma empty_target_parse:
  assumes "first_match db tx aliases alias" and "startswith (remainder db tx alias) (U ''[[]]'')"
  shows "parse_redirect db tx aliases = Inr (Some [])"
  using parse_redirect_target [OF assms(1)] empty_target_positions [OF assms(2)]
  by fastforce

lemma empty_target_nonempty:
  assumes "startswith (remainder db tx alias) (U ''[[]]'')"
  shows "tx \<noteq> []"
  using assms by (auto simp: remainder_def lstrip_def startswith_def U_def)

lemma empty_target_convert_try:
  assumes "first_match (py_unicode W) tx (redirect_aliases W) alias"
    and "startswith (remainder (py_unicode W) tx alias) (U ''[[]]'')"
    and "reader W title = Some (Some tx, sz)"
  shows "convert_try W title = render_article W title tx sz"
  using empty_target_parse [OF assms(1,2)] empty_target_nonempty [OF assms(2)] assms(3)
  by (simp add: convert_try_def seq_def reader_getitem_def reader_getitem_size_def
      get_redirect_def)

lemma render_article_not_redirect:
  "render_article W title tx sz \<noteq> Inr (t, p, True, ll, n)"
  by (auto simp: render_article_def seq_def package_def split: sum.splits prod.splits)

lemma render_article_not_bad: "render_article W title tx sz \<noteq> Inl (BadRedirect r)"
  using render_article_error [of W title tx sz "BadRedirect r"] by auto

text \<open>
  Claim C9 says that every text that starts with a redirect alias followed by an empty
  bracketed target is taken for no redirect and raises no \<^verbatim>\<open>BadRedirect\<close>. The text
  \<^verbatim>\<open>#REDIRECT [[]]\<close> of the claim starts with the alias \<^verbatim>\<open>#REDIRECT\<close>, which the
  empty target follows after a blank. When the alias \<^verbatim>\<open>#REDIRECT [\<close> comes before it in
  the sequence, that alias matches first, what remains is \<^verbatim>\<open>[]]\<close>, which has no
  \<^verbatim>\<open>[[\<close>, and \<open>parse_redirect\<close> and \<open>get_redirect\<close> raise \<^verbatim>\<open>BadRedirect\<close>.
\<close>

theorem empty_target_behind_longer_alias:
  "U ''#REDIRECT'' \<in> set (redirect_aliases bracket_alias_wiki)
   \<and> startswith (U ''#REDIRECT [[]]'') (U ''#REDIRECT'')
   \<and> lstrip (py_unicode bracket_alias_wiki) (drop (length (U ''#REDIRECT'')) (U ''#REDIRECT [[]]''))
       = U ''[[]]''
   \<and> parse_redirect (py_unicode bracket_alias_wiki) (U ''#REDIRECT [[]]'')
       (redirect_aliases bracket_alias_wiki) = Inl (BadRedirect (U ''[]]''))
   \<and> get_redirect bracket_alias_wiki (U ''#REDIRECT [[]]'') = Inl (BadRedirect (U ''[]]''))
   \<and> convert_try bracket_alias_wiki (U ''Z'') = Inl (BadRedirect (U ''[]]''))"
  by (simp add: bracket_alias_wiki_def example_wiki_def example_db_def convert_try_def seq_def
      reader_getitem_def reader_getitem_size_def get_redirect_def string_defs)

text \<open>
  Claim C9, as amended. For every text in which the first alias that matches, the one
  that \<open>parse_redirect\<close> removes, is followed, after optional white space, by the empty
  target \<^verbatim>\<open>[[]]\<close>: \<open>parse_redirect\<close> returns the empty string, \<open>get_redirect\<close>
  returns it unchanged, which \<open>convert\<close> takes for no redirect, and the article goes
  the way of a normal article through parsing and rendering: \<open>convert\<close> gives what that
  way gives (with its exceptions as \<^verbatim>\<open>ConvertError\<close>), neither a redirect record
  nor a \<^verbatim>\<open>BadRedirect\<close>.
\<close>

theorem empty_redirect_target:
  "first_match (py_unicode W) text (redirect_aliases W) alias
     \<and> startswith (remainder (py_unicode W) text alias) (U ''[[]]'')
   \<longrightarrow> parse_redirect (py_unicode W) text (redirect_aliases W) = Inr (Some [])
       \<and> get_redirect W text = Inr (Some [])
       \<and> (reader W title = Some (Some text, sz)
          \<longrightarrow> convert_try W title = render_article W title text sz
              \<and> convert W title =
                  (case render_article W title text sz of
                     Inl e \<Rightarrow> Inl (ConvertError title)
                   | Inr r \<Rightarrow> Inr r)
              \<and> convert_try W title \<noteq> Inr (t, p, True, ll, n)
              \<and> convert_try W title \<noteq> Inl (BadRedirect r))"
proof (intro impI conjI; (elim conjE)?)
  assume m: "first_match (py_unicode W) text (redirect_aliases W) alias"
    and e: "startswith (remainder (py_unicode W) text alias) (U ''[[]]'')"
  show pr: "parse_redirect (py_unicode W) text (redirect_aliases W) = Inr (Some [])"
    using m e by (rule empty_target_parse)
  then show "get_redirect W text = Inr (Some [])"
    by (simp add: get_redirect_def seq_def)
  assume rd: "reader W title = Some (Some text, sz)"
  show ct: "convert_try W title = render_article W title text sz"
    using m e rd by (rule empty_target_convert_try)
  show "convert W title =
          (case render_article W title text sz of
             Inl e \<Rightarrow> Inl (ConvertError title)
           | Inr r \<Rightarrow> Inr r)"
    using render_article_error [of W title "text" sz]
    by (auto simp: convert_def ct split: sum.splits)
  show "convert_try W title \<noteq> Inr (t, p, True, ll, n)"
    unfolding ct by (rule render_article_not_redirect)
  show "convert_try W title \<noteq> Inl (BadRedirect r)"
    unfolding ct by (rule render_article_not_bad)
qed

theorem empty_redirect_target_witness:
  "parse_redirect (py_unicode example_wiki) (U ''#REDIRECT [[]]'') (redirect_aliases example_wiki)
     = Inr (Some [])
   \<and> get_redirect example_wiki (U ''#REDIRECT [[]]'') = Inr (Some [])
   \<and> convert_try example_wiki (U ''Z'')
       = render_article example_wiki (U ''Z'') (U ''#REDIRECT [[]]'') 14
   \<and> convert example_wiki (U ''Z'') = Inl (ConvertError (U ''Z''))"
proof -
  have h: "first_match (py_unicode example_wiki) (U ''#REDIRECT [[]]'')
             (redirect_aliases example_wiki) (U ''#REDIRECT'')
      \<and> startswith (remainder (py_unicode example_wiki) (U ''#REDIRECT [[]]'') (U ''#REDIRECT''))
          (U ''[[]]'')"
    by (simp add: first_match_def matches_def example_wiki_def string_defs)
  have rd: "reader example_wiki (U ''Z'') = Some (Some (U ''#REDIRECT [[]]''), 14)"
    by (simp add: example_wiki_def U_def)
  note c = empty_redirect_target [rule_format, OF h]
  note d = c [THEN conjunct2, THEN conjunct2, rule_format, OF rd]
  have ra: "render_article example_wiki (U ''Z'') (U ''#REDIRECT [[]]'') 14 = Inl TypeError"
    by (simp add: wiki_defs)
  from d [THEN conjunct2, THEN conjunct1]
  have "convert example_wiki (U ''Z'') = Inl (ConvertError (U ''Z''))"
    unfolding ra by simp
  with c [THEN conjunct1] c [THEN conjunct2, THEN conjunct1] d [THEN conjunct1]
  show ?thesis by (intro conjI)
qed



section \<open>Properties of the renderer\<close>

subsection \<open>Reference numbering\<close>

lemmas writer_defs =
  new_writer_def register_reference_def xwriteReference_def xwriteReferenceList_def
  group_references_def group_namedrefs_def attr_get_def mknoteid_def replace_char_def
  strip_def seq_num_def refid_of_def registered_def ref_key_def named_entry_def

lemma register_unnamed:
  assumes "attr_get obj ''name'' [] = []"
  shows "seq_num w obj = length (group_references w (attr_get obj ''group'' [])) + 1"
    and "group_references (registered w obj) (attr_get obj ''group'' [])
           = group_references w (attr_get obj ''group'' []) @ [obj]"
    and "namedrefs (registered w obj) = namedrefs w"
    and "refid_of w obj = ''_r'' @ mknoteid (attr_get obj ''group'' []) (seq_num w obj)"
  using assms
  by (simp_all add: seq_num_def registered_def refid_of_def register_reference_def
      group_references_def Let_def update_conv')

lemma register_unseen:
  assumes "attr_get obj ''name'' [] \<noteq> []" and "named_entry w obj = None"
  shows "seq_num w obj = length (group_references w (attr_get obj ''group'' [])) + 1"
    and "group_references (registered w obj) (attr_get obj ''group'' [])
           = group_references w (attr_get obj ''group'' []) @ [obj]"
    and "named_entry (registered w obj) obj = Some (seq_num w obj, 1)"
    and "refid_of w obj
           = ''_r'' @ mknoteid (attr_get obj ''group'' []) (seq_num w obj) @ ''_'' @ unicode_nat 0"
  using assms
  by (simp_all add: seq_num_def registered_def refid_of_def register_reference_def
      group_references_def group_namedrefs_def named_entry_def ref_key_def Let_def update_conv')

lemma register_seen:
  assumes "attr_get obj ''name'' [] \<noteq> []" and "named_entry w obj = Some (first, count)"
  shows "seq_num w obj = first"
    and "group_references (registered w obj) (attr_get obj ''group'' [])
           = group_references w (attr_get obj ''group'' [])"
    and "named_entry (registered w obj) obj = Some (first, count + 1)"
    and "refid_of w obj
           = ''_r'' @ mknoteid (attr_get obj ''group'' []) first @ ''_'' @ unicode_nat count"
  using assms
  by (simp_all add: seq_num_def registered_def refid_of_def register_reference_def
      group_references_def group_namedrefs_def named_entry_def ref_key_def Let_def update_conv')

lemma xwriteReference_marker:
  "\<exists>onclick. xwriteReference w obj =
     (SkipChildren (Some (Element ''a''
        [(''id'', refid_of w obj), (''href'', ''#''), (''onClick'', onclick)]
        (''['' @ strip (attr_get obj ''group'' [] @ '' '' @ unicode_nat (seq_num w obj)) @ '']'')
        [] [])),
      registered w obj)"
  by (simp add: xwriteReference_def refid_of_def seq_num_def registered_def Let_def
      split: prod.splits)

lemma register_twice_unnamed:
  assumes "attr_get u ''group'' [] = []" "attr_get u ''name'' [] = []"
    and "attr_get u' ''group'' [] = []" "attr_get u' ''name'' [] = []"
  shows "seq_num new_writer u = 1 \<and> seq_num (registered new_writer u) u' = 2"
proof -
  have "group_references new_writer [] = []"
    by (simp add: group_references_def new_writer_def)
  with register_unnamed(1,2) [OF assms(2), of new_writer] assms(1)
  have "seq_num new_writer u = 1" "group_references (registered new_writer u) [] = [u]"
    by simp_all
  with register_unnamed(1) [OF assms(4), of "registered new_writer u"] assms(3)
  show ?thesis by simp
qed

lemma register_twice_named:
  assumes "attr_get x ''name'' [] \<noteq> []" and "named_entry w x = None"
    and "attr_get x' ''name'' [] \<noteq> []" and "attr_get x' ''group'' [] = attr_get x ''group'' []"
    and "ref_key x' = ref_key x"
  shows "seq_num (registered w x) x' = seq_num w x
         \<and> named_entry (registered w x) x = Some (seq_num w x, 1)
         \<and> named_entry (registered (registered w x) x') x = Some (seq_num w x, 2)"
proof -
  have same: "named_entry v x' = named_entry v x" for v
    using assms(4,5) by (simp add: named_entry_def)
  note first = register_unseen(3) [OF assms(1,2)]
  then have "named_entry (registered w x) x' = Some (seq_num w x, 1)"
    by (simp add: same)
  from register_seen(1,3) [OF assms(3) this] first show ?thesis
    by (simp add: same)
qed

text \<open>
  Claim C6. Within one render, a reference without a name is appended to the list of its
  group, and its sequence number is its position in the list, counted from 1. The first
  registration of a name appends the reference, records its position as the number first
  seen with the count 1, and the id of the marker ends in the index 0; every later
  registration of the name keeps that number, raises the count by one, and the id of the
  marker ends in the count before the rise. Two references without a name in the group
  with the empty name get the numbers 1 and 2 in a new writer; a name registered twice
  gets the same number both times while its count goes from 1 to 2.
\<close>

theorem reference_numbering:
  "(attr_get obj ''name'' [] = []
      \<longrightarrow> seq_num w obj = length (group_references w (attr_get obj ''group'' [])) + 1
        \<and> group_references (registered w obj) (attr_get obj ''group'' [])
            = group_references w (attr_get obj ''group'' []) @ [obj]
        \<and> group_references (registered w obj) (attr_get obj ''group'' []) ! (seq_num w obj - 1) = obj
        \<and> refid_of w obj = ''_r'' @ mknoteid (attr_get obj ''group'' []) (seq_num w obj))
   \<and> (attr_get obj ''name'' [] \<noteq> [] \<and> named_entry w obj = None
      \<longrightarrow> seq_num w obj = length (group_references w (attr_get obj ''group'' [])) + 1
        \<and> group_references (registered w obj) (attr_get obj ''group'' [])
            = group_references w (attr_get obj ''group'' []) @ [obj]
        \<and> group_references (registered w obj) (attr_get obj ''group'' []) ! (seq_num w obj - 1) = obj
        \<and> named_entry (registered w obj) obj = Some (seq_num w obj, 1)
        \<and> refid_of w obj
            = ''_r'' @ mknoteid (attr_get obj ''group'' []) (seq_num w obj) @ ''_'' @ unicode_nat 0)
   \<and> (attr_get obj ''name'' [] \<noteq> [] \<and> named_entry w obj = Some (first, count)
      \<longrightarrow> seq_num w obj = first
        \<and> group_references (registered w obj) (attr_get obj ''group'' [])
            = group_references w (attr_get obj ''group'' [])
        \<and> named_entry (registered w obj) obj = Some (first, count + 1)
        \<and> refid_of w obj
            = ''_r'' @ mknoteid (attr_get obj ''group'' []) first @ ''_'' @ unicode_nat count)
   \<and> (\<exists>onclick atext. xwriteReference w obj =
         (SkipChildren (Some (Element ''a''
            [(''id'', refid_of w obj), (''href'', ''#''), (''onClick'', onclick)] atext [] [])),
          registered w obj))
   \<and> (attr_get u ''group'' [] = [] \<and> attr_get u ''name'' [] = []
        \<and> attr_get u' ''group'' [] = [] \<and> attr_get u' ''name'' [] = []
      \<longrightarrow> seq_num new_writer u = 1 \<and> seq_num (registered new_writer u) u' = 2)
   \<and> (attr_get x ''name'' [] \<noteq> [] \<and> named_entry w x = None
        \<and> attr_get x' ''name'' [] \<noteq> [] \<and> attr_get x' ''group'' [] = attr_get x ''group'' []
        \<and> ref_key x' = ref_key x
      \<longrightarrow> seq_num (registered w x) x' = seq_num w x
        \<and> named_entry (registered w x) x = Some (seq_num w x, 1)
        \<and> named_entry (registered (registered w x) x') x = Some (seq_num w x, 2))"
proof -
  have p1: "attr_get obj ''name'' [] = []
      \<longrightarrow> seq_num w obj = length (group_references w (attr_get obj ''group'' [])) + 1
        \<and> group_references (registered w obj) (attr_get obj ''group'' [])
            = group_references w (attr_get obj ''group'' []) @ [obj]
        \<and> group_references (registered w obj) (attr_get obj ''group'' []) ! (seq_num w obj - 1) = obj
        \<and> refid_of w obj = ''_r'' @ mknoteid (attr_get obj ''group'' []) (seq_num w obj)"
    by (simp add: register_unnamed)
  have p2: "attr_get obj ''name'' [] \<noteq> [] \<and> named_entry w obj = None
      \<longrightarrow> seq_num w obj = length (group_references w (attr_get obj ''group'' [])) + 1
        \<and> group_references (registered w obj) (attr_get obj ''group'' [])
            = group_references w (attr_get obj ''group'' []) @ [obj]
        \<and> group_references (registered w obj) (attr_get obj ''group'' []) ! (seq_num w obj - 1) = obj
        \<and> named_entry (registered w obj) obj = Some (seq_num w obj, 1)
        \<and> refid_of w obj
            = ''_r'' @ mknoteid (attr_get obj ''group'' []) (seq_num w obj) @ ''_'' @ unicode_nat 0"
    by (simp add: register_unseen)
  have p3: "attr_get obj ''name'' [] \<noteq> [] \<and> named_entry w obj = Some (first, count)
      \<longrightarrow> seq_num w obj = first
        \<and> group_references (registered w obj) (attr_get obj ''group'' [])
            = group_references w (attr_get obj ''group'' [])
        \<and> named_entry (registered w obj) obj = Some (first, count + 1)
        \<and> refid_of w obj
            = ''_r'' @ mknoteid (attr_get obj ''group'' []) first @ ''_'' @ unicode_nat count"
    by (simp add: register_seen)
  have p4: "\<exists>onclick atext. xwriteReference w obj =
         (SkipChildren (Some (Element ''a''
            [(''id'', refid_of w obj), (''href'', ''#''), (''onClick'', onclick)] atext [] [])),
          registered w obj)"
    using xwriteReference_marker [of w obj] by blast
  have p5: "attr_get u ''group'' [] = [] \<and> attr_get u ''name'' [] = []
        \<and> attr_get u' ''group'' [] = [] \<and> attr_get u' ''name'' [] = []
      \<longrightarrow> seq_num new_writer u = 1 \<and> seq_num (registered new_writer u) u' = 2"
    using register_twice_unnamed [of u u'] by blast
  have p6: "attr_get x ''name'' [] \<noteq> [] \<and> named_entry w x = None
        \<and> attr_get x' ''name'' [] \<noteq> [] \<and> attr_get x' ''group'' [] = attr_get x ''group'' []
        \<and> ref_key x' = ref_key x
      \<longrightarrow> seq_num (registered w x) x' = seq_num w x
        \<and> named_entry (registered w x) x = Some (seq_num w x, 1)
        \<and> named_entry (registered (registered w x) x') x = Some (seq_num w x, 2)"
    using register_twice_named [of x w x'] by blast
  from p1 p2 p3 p4 p5 p6 show ?thesis
    by (intro conjI)
qed

theorem reference_numbering_witness:
  "seq_num new_writer (example_ref [] []) = 1
   \<and> seq_num (registered new_writer (example_ref [] [])) (example_ref [] []) = 2
   \<and> seq_num new_writer (example_ref [] ''x'') = 1
   \<and> named_entry (registered new_writer (example_ref [] ''x'')) (example_ref [] ''x'') = Some (1, 1)
   \<and> seq_num (registered new_writer (example_ref [] ''x'')) (example_ref [] ''x'') = 1
   \<and> named_entry (registered (registered new_writer (example_ref [] ''x'')) (example_ref [] ''x''))
         (example_ref [] ''x'') = Some (1, 2)
   \<and> refid_of (registered new_writer (example_ref [] ''x'')) (example_ref [] ''x'') = ''_r_n_1_1''"
proof -
  let ?u = "example_ref [] []" and ?x = "example_ref [] ''x''"
  have u: "attr_get ?u ''group'' [] = [] \<and> attr_get ?u ''name'' [] = []
      \<and> attr_get ?u ''group'' [] = [] \<and> attr_get ?u ''name'' [] = []"
    by (simp add: attr_get_def example_ref_def)
  have g: "attr_get ?x ''group'' [] = []"
    by (simp add: attr_get_def example_ref_def)
  have x: "attr_get ?x ''name'' [] \<noteq> [] \<and> named_entry new_writer ?x = None
      \<and> attr_get ?x ''name'' [] \<noteq> [] \<and> attr_get ?x ''group'' [] = attr_get ?x ''group'' []
      \<and> ref_key ?x = ref_key ?x"
    by (simp add: attr_get_def example_ref_def named_entry_def group_namedrefs_def new_writer_def)
  note two = reference_numbering [THEN conjunct2, THEN conjunct2, THEN conjunct2, THEN conjunct2,
      THEN conjunct1, rule_format, OF u]
  note twice = reference_numbering [THEN conjunct2, THEN conjunct2, THEN conjunct2,
      THEN conjunct2, THEN conjunct2, rule_format, OF x]
  have unseen: "attr_get ?x ''name'' [] \<noteq> [] \<and> named_entry new_writer ?x = None"
    using x by simp
  note fst = reference_numbering [THEN conjunct2, THEN conjunct1, rule_format, OF unseen]
  have len: "length (group_references new_writer []) + 1 = 1"
    by (simp add: group_references_def new_writer_def)
  from fst [THEN conjunct1] have s1: "seq_num new_writer ?x = 1"
    unfolding g len .
  have seen: "attr_get ?x ''name'' [] \<noteq> []
      \<and> named_entry (registered new_writer ?x) ?x = Some (1, 1)"
    using x twice s1 by simp
  note snd = reference_numbering [THEN conjunct2, THEN conjunct2, THEN conjunct1, rule_format,
      OF seen]
  have id: "''_r'' @ mknoteid [] 1 @ ''_'' @ unicode_nat 1 = ''_r_n_1_1''"
    by (simp add: mknoteid_def unicode_nat.simps digit_char_def)
  from snd have r: "refid_of (registered new_writer ?x) ?x = ''_r_n_1_1''"
    unfolding g id by simp
  from two twice s1 r show ?thesis
    by simp
qed

subsection \<open>The reference list\<close>

lemma reference_list_nothing:
  "references w = [] \<Longrightarrow> xwriteReferenceList wc w t = Inr (NoElement, w)"
  by (simp add: xwriteReferenceList_def)

lemma reference_list_empty_group:
  "map_of (references w) (attr_get t ''group'' []) = Some [] \<Longrightarrow>
     \<exists>w'. xwriteReferenceList wc w t = Inr (NoElement, w')"
  by (auto simp: xwriteReferenceList_def Let_def)

lemma reference_list_key_error:
  "references w \<noteq> [] \<Longrightarrow> map_of (references w) (attr_get t ''group'' []) = None \<Longrightarrow>
     xwriteReferenceList wc w t = Inl (KeyError (U (attr_get t ''group'' [])))"
  by (simp add: xwriteReferenceList_def Let_def)

text \<open>
  Claim C5 says that the reference list of a group without collected references is no
  output and never a lookup failure, also when the group is no key of the dictionary
  while other groups have references. The code run on that case: after one reference
  was registered in the group \<open>a\<close>, the reference list of the group with the empty name
  raises \<^verbatim>\<open>KeyError\<close>, whatever the writer does with children.
\<close>

theorem reference_list_missing_group:
  "references (registered new_writer (example_ref ''a'' [])) = [(''a'', [example_ref ''a'' []])]
   \<and> (\<forall>wc. xwriteReferenceList wc (registered new_writer (example_ref ''a'' []))
               (Node ''ReferenceList'' [] [] []) = Inl (KeyError []))"
  by (simp add: writer_defs example_ref_def Let_def U_def)

subsection \<open>The content filter\<close>

lemma excluded_by_builtin_class:
  "xwriteGenericElement base obj =
     (if set (str_split (attr_get obj ''class'' [])) \<inter> set BUILTIN_EXCLUDE_CLASSES \<noteq> {}
      then SkipChildren None else base obj)"
  "xwriteTable base obj =
     (if set (str_split (attr_get obj ''class'' [])) \<inter> set BUILTIN_EXCLUDE_CLASSES \<noteq> {}
      then SkipChildren None else base obj)"
  by (auto simp: xwriteGenericElement_def xwriteTable_def Let_def list_ex_iff)

lemma navbox_elided:
  "xwriteGenericElement base (example_div ''navbox other'') = SkipChildren None"
  "xwriteTable base (example_div ''navbox other'') = SkipChildren None"
  by (simp_all add: xwriteGenericElement_def xwriteTable_def example_div_def attr_get_def
      str_split_def is_space_def BUILTIN_EXCLUDE_CLASSES_def)

text \<open>
  Claim C7 says that an element is suppressed exactly when one of its classes is in the
  built-in set or in the configured \<^verbatim>\<open>excluded_classes\<close>. The code run on an element
  of the class \<open>foo\<close>, with \<open>foo\<close> configured as an excluded class: the rule of the
  specification suppresses the element, the two handlers pass it on to the handler of
  the base class as it is.
\<close>

theorem configured_classes_ignored:
  "spec_suppressed (wfilters example_wiki) (example_div ''foo'')
   \<and> (\<forall>base. xwriteGenericElement base (example_div ''foo'') = base (example_div ''foo''))
   \<and> (\<forall>base. xwriteTable base (example_div ''foo'') = base (example_div ''foo''))"
  by (simp add: spec_suppressed_def xwriteGenericElement_def xwriteTable_def example_div_def
      example_wiki_def attr_get_def str_split_def is_space_def BUILTIN_EXCLUDE_CLASSES_def)

section \<open>Properties of the scheduler\<close>

subsection \<open>Rules for the loops of the pooled mode\<close>

lemma handle_outcome_exit:
  "handle_outcome W P outcome s = (Some x, s') \<Longrightarrow> x \<noteq> Drained"
  by (auto simp: handle_outcome_def Let_def split: sum.splits prod.splits if_splits)

lemma on_event_exit: "on_event cv W P e s = Some (Some x, s') \<Longrightarrow> x \<noteq> Drained"
  by (cases e) (auto split: if_splits dest: handle_outcome_exit)

lemma drain_running:
  "\<not> (fed_all s \<and> pending s = []) \<Longrightarrow>
     drain cv W P (e # evs) s =
       (case on_event cv W P e s of
          None \<Rightarrow> None
        | Some (Some x, s') \<Rightarrow> Some (x, s', evs)
        | Some (None, s') \<Rightarrow> drain cv W P evs s')"
  by (cases "fed_all s"; cases "pending s = []"; simp)

lemma drain_rule:
  assumes step: "\<And>e s s'. I s \<Longrightarrow> on_event cv W P e s = Some (None, s') \<Longrightarrow> I s'"
    and exit: "\<And>e s x s'. I s \<Longrightarrow> on_event cv W P e s = Some (Some x, s') \<Longrightarrow> Q x s'"
    and run: "drain cv W P evs s = Some (x, s', evs')" and inv: "I s"
  shows "if x = Drained then I s' else Q x s'"
  using run inv
proof (induction evs arbitrary: s)
  case Nil
  then show ?case by (simp split: if_splits)
next
  case (Cons e evs)
  show ?case
  proof (cases "fed_all s \<and> pending s = []")
    case True
    with Cons.prems show ?thesis by simp
  next
    case False
    note eq = Cons.prems(1) [unfolded drain_running [OF False]]
    show ?thesis
    proof (cases "on_event cv W P e s")
      case None
      with eq show ?thesis by simp
    next
      case (Some r)
      obtain xo u where r: "r = (xo, u)" by (cases r)
      show ?thesis
      proof (cases xo)
        case None
        with Some r eq have "drain cv W P evs u = Some (x, s', evs')" by simp
        moreover from Some r None Cons.prems(2) have "I u" by (auto intro: step)
        ultimately show ?thesis by (rule Cons.IH)
      next
        case (Some y)
        with \<open>on_event cv W P e s = Some r\<close> r eq
        have "x = y" "s' = u" "on_event cv W P e s = Some (Some x, s')" by simp_all
        with Cons.prems(2) show ?thesis
          by (auto dest: on_event_exit intro: exit)
      qed
    qed
  qed
qed

lemma drain_shorter:
  "drain cv W P evs s = Some (x, s', evs') \<Longrightarrow> length evs' \<le> length evs"
proof (induction evs arbitrary: s)
  case Nil
  then show ?case by (simp split: if_splits)
next
  case (Cons e evs)
  show ?case
  proof (cases "fed_all s \<and> pending s = []")
    case True
    with Cons.prems show ?thesis by simp
  next
    case False
    with Cons.prems Cons.IH show ?thesis
      by (fastforce split: option.splits prod.splits intro: le_SucI)
  qed
qed

lemma drain_consumes:
  "drain cv W P evs s = Some (x, s', evs') \<Longrightarrow> \<not> fed_all s \<Longrightarrow> length evs' < length evs"
  by (cases evs) (auto split: option.splits prod.splits dest!: drain_shorter)

lemma chunks_rule:
  assumes step: "\<And>e s s'. I s \<Longrightarrow> on_event cv W P e s = Some (None, s') \<Longrightarrow> I s'"
    and exit: "\<And>e s x s'. I s \<Longrightarrow> on_event cv W P e s = Some (Some x, s') \<Longrightarrow> Q x s'"
    and chunk: "\<And>s. I s \<Longrightarrow> I (new_chunk P s)"
    and final: "\<And>s. I s \<Longrightarrow> Q Drained s"
    and run: "chunks cv W P evs s = Some (x, s')" and inv: "I s"
  shows "Q x s'"
  using run inv
proof (induction "length evs" arbitrary: evs s rule: less_induct)
  case less
  show ?case
  proof (cases "iter_count s = 0")
    case True
    with less.prems show ?thesis by (auto simp: chunks.simps intro: final)
  next
    case False
    with less.prems(1) obtain y u evs'
      where d: "drain cv W P evs (new_chunk P s) = Some (y, u, evs')"
      by (auto simp: chunks.simps split: option.splits)
    from less.prems(2) have "I (new_chunk P s)" by (rule chunk)
    with step exit d have post: "if y = Drained then I u else Q y u"
      by (rule drain_rule [where I = I and Q = Q])
    show ?thesis
    proof (cases "y = Drained")
      case True
      with d False less.prems(1) have next_run: "chunks cv W P evs' u = Some (x, s')"
        by (simp add: chunks.simps)
      from d have "length evs' < length evs"
        by (rule drain_consumes) (simp add: new_chunk_def)
      moreover from post True have "I u" by simp
      ultimately show ?thesis using next_run by (auto intro: less.hyps)
    next
      case no: False
      with d False less.prems(1) have "x = y" "s' = u"
        by (cases y; simp add: chunks.simps)+
      with post no show ?thesis by simp
    qed
  qed
qed

lemma parse_mp_rule:
  assumes step: "\<And>e s s'. I s \<Longrightarrow> on_event cv W P e s = Some (None, s') \<Longrightarrow> I s'"
    and exit: "\<And>e s x s'. I s \<Longrightarrow> on_event cv W P e s = Some (Some x, s') \<Longrightarrow> Q x s'"
    and chunk: "\<And>s. I s \<Longrightarrow> I (new_chunk P s)"
    and final: "\<And>s. I s \<Longrightarrow> Q Drained s"
    and init: "I \<lparr> articles_left = articles P titles, chunk_left = 0, fed_all = False,
                   pending = [], iter_count = 1, real_article_count = 0,
                   consumer = [AddMetadata ''article_format'' ''html''] \<rparr>"
    and run: "parse_mp cv W P titles evs = Some (x, s')"
  shows "Q x s'"
proof -
  from run have r: "chunks cv W P evs
       \<lparr> articles_left = articles P titles, chunk_left = 0, fed_all = False,
         pending = [], iter_count = 1, real_article_count = 0,
         consumer = [AddMetadata ''article_format'' ''html''] \<rparr> = Some (x, s')"
    by (simp add: parse_mp_def)
  show ?thesis
  proof (rule chunks_rule [where I = I and Q = Q, OF _ _ _ _ r init])
    fix e s u assume "I s" "on_event cv W P e s = Some (None, u)"
    then show "I u" by (rule step)
  next
    fix e s y u assume "I s" "on_event cv W P e s = Some (Some y, u)"
    then show "Q y u" by (rule exit)
  next
    fix s assume "I s" then show "I (new_chunk P s)" by (rule chunk)
  next
    fix s assume "I s" then show "Q Drained s" by (rule final)
  qed
qed

subsection \<open>The requested article count\<close>

lemma counted_articles_append [simp]:
  "counted_articles (a @ b) = counted_articles a + counted_articles b"
  by (simp add: counted_articles_def)

lemma languagelinks_uncounted:
  "filter counted_article (process_languagelinks W P title ll) = []"
  "filter counted_redirect (process_languagelinks W P title ll) = []"
  "filter is_outcome (process_languagelinks W P title ll) = []"
  by (simp_all add: process_languagelinks_def mkredirect_def filter_map comp_def split: option.splits)

lemma counted_articles_Nil [simp]: "counted_articles [] = 0"
  by (simp add: counted_articles_def)

lemma counted_articles_Cons [simp]:
  "counted_articles (r # log) = (if counted_article r then 1 else 0) + counted_articles log"
  by (simp add: counted_articles_def)

lemma counted_languagelinks [simp]:
  "counted_articles (process_languagelinks W P title ll) = 0"
  by (simp add: counted_articles_def languagelinks_uncounted)

lemma feed_consumer [simp]:
  "consumer (feed s) = consumer s" "real_article_count (feed s) = real_article_count s"
  by (simp_all add: feed_def split: list.splits)

lemma feed_articles: "\<exists>fed'. fed @ articles_left s = fed' @ articles_left (feed s)"
  by (cases "articles_left s") (auto simp: feed_def)

lemma handle_outcome_articles [simp]:
  "articles_left (snd (handle_outcome W P outcome s)) = articles_left s"
  by (auto simp: handle_outcome_def Let_def split: sum.splits prod.splits)

lemma handle_outcome_returned:
  assumes "handle_outcome W P outcome s = (Some Returned, s')"
  shows "\<exists>title serialized sz ll.
           consumer s' = consumer s @ AddArticle title serialized False True (Some sz)
                                     # process_languagelinks W P title ll
           \<and> real_article_count s' = real_article_count s + 1
           \<and> requested_article_count P \<le> real_article_count s'
           \<and> articles_left s' = articles_left s"
  using assms
  by (auto simp: handle_outcome_def Let_def split: if_splits sum.splits prod.splits)

lemma handle_outcome_raised:
  "handle_outcome W P outcome s = (Some (Raised e), s') \<Longrightarrow> s' = s"
  by (auto simp: handle_outcome_def Let_def split: if_splits sum.splits prod.splits)

lemma handle_outcome_exits:
  "handle_outcome W P outcome s = (Some x, s') \<Longrightarrow> x = Returned \<or> (\<exists>e. x = Raised e)"
  by (cases x) (auto dest: handle_outcome_exit)

lemma limit_step:
  assumes "limit_inv P T s" and "on_event cv W P e s = Some (None, s')"
  shows "limit_inv P T s'"
proof (cases e)
  case Feed
  with assms show ?thesis
    by (auto simp: limit_inv_def feed_articles split: if_splits)
next
  case (Done i)
  with assms show ?thesis
    by (auto simp: limit_inv_def handle_outcome_def Let_def
        split: if_splits sum.splits prod.splits)
next
  case (Timeout n)
  with assms show ?thesis
    by (auto simp: limit_inv_def on_timeout_def)
qed

lemma limit_exit:
  assumes "limit_inv P T s" and "on_event cv W P e s = Some (Some x, s')"
  shows "limit_post W P T x s'"
proof (cases e)
  case Feed
  with assms show ?thesis by (simp split: if_splits)
next
  case (Done i)
  let ?s = "s\<lparr>pending := take i (pending s) @ drop (Suc i) (pending s)\<rparr>"
  from Done assms(2) have h: "handle_outcome W P (cv (pending s ! i)) ?s = (Some x, s')"
    by (simp split: if_splits)
  from handle_outcome_exits [OF h] show ?thesis
  proof
    assume x: "x = Returned"
    from handle_outcome_returned [OF h [unfolded x]] obtain title serialized sz ll
      where c: "consumer s' = consumer s @ AddArticle title serialized False True (Some sz)
                                     # process_languagelinks W P title ll"
        and r: "real_article_count s' = real_article_count s + 1"
          "requested_article_count P \<le> real_article_count s'"
          "articles_left s' = articles_left s"
      by auto
    from assms(1) r have k: "counted_articles (consumer s) + 1 = requested_article_count P"
      by (simp add: limit_inv_def)
    with c have "\<exists>log title serialized sz ll.
                  consumer s' = log @ AddArticle title serialized False True (Some sz)
                                   # process_languagelinks W P title ll
                  \<and> counted_articles log + 1 = requested_article_count P"
      by blast
    with x c k r assms(1) show ?thesis
      by (simp add: limit_post_def limit_inv_def)
  next
    assume "\<exists>e. x = Raised e"
    then obtain err where x: "x = Raised err" ..
    from handle_outcome_raised [OF h [unfolded x]] x assms(1) show ?thesis
      by (simp add: limit_post_def limit_inv_def)
  qed
next
  case (Timeout n)
  with assms show ?thesis by simp
qed

lemma limit_final: "limit_inv P T s \<Longrightarrow> limit_post W P T Drained s"
  by (simp add: limit_inv_def limit_post_def)

lemma limit_chunk: "limit_inv P T s \<Longrightarrow> limit_inv P T (new_chunk P s)"
  by (simp add: limit_inv_def new_chunk_def)

lemma limit_run:
  assumes "0 < requested_article_count P" and "parse_mp cv W P titles evs = Some (x, s)"
  shows "limit_post W P (articles P titles) x s"
proof (rule parse_mp_rule [where I = "limit_inv P (articles P titles)"
      and Q = "limit_post W P (articles P titles)", OF _ _ _ _ _ assms(2)])
  fix e s u assume "limit_inv P (articles P titles) s" "on_event cv W P e s = Some (None, u)"
  then show "limit_inv P (articles P titles) u" by (rule limit_step)
next
  fix e s y u assume "limit_inv P (articles P titles) s" "on_event cv W P e s = Some (Some y, u)"
  then show "limit_post W P (articles P titles) y u" by (rule limit_exit)
next
  fix s assume "limit_inv P (articles P titles) s"
  then show "limit_inv P (articles P titles) (new_chunk P s)" by (rule limit_chunk)
next
  fix s assume "limit_inv P (articles P titles) s"
  then show "limit_post W P (articles P titles) Drained s" by (rule limit_final)
next
  from assms(1)
  show "limit_inv P (articles P titles)
          \<lparr> articles_left = articles P titles, chunk_left = 0, fed_all = False,
            pending = [], iter_count = 1, real_article_count = 0,
            consumer = [AddMetadata ''article_format'' ''html''] \<rparr>"
    by (simp add: limit_inv_def)
qed

text \<open>
  The count of the articles is kept, whatever the worker function does and in whatever
  order the pool delivers: the consumer never has more counted articles that are no
  redirects than requested; \<open>parse_mp\<close> leaves by its \<^verbatim>\<open>return\<close> exactly when
  their number is the requested count, and then the last reports are that article and
  its language links; the titles that were not yet taken from the stream stay there.
\<close>

lemma counted_articles_bounded:
  assumes "0 < requested_article_count P" and "parse_mp cv W P titles evs = Some (x, s)"
  shows "counted_articles (consumer s) \<le> requested_article_count P"
    and "x = Returned \<longleftrightarrow> counted_articles (consumer s) = requested_article_count P"
    and "x = Returned \<Longrightarrow>
          \<exists>log title serialized sz ll.
             consumer s = log @ AddArticle title serialized False True (Some sz)
                              # process_languagelinks W P title ll
             \<and> counted_articles log + 1 = requested_article_count P"
    and "\<exists>fed. articles P titles = fed @ articles_left s"
proof -
  from assms have post: "limit_post W P (articles P titles) x s" by (rule limit_run)
  from post show "counted_articles (consumer s) \<le> requested_article_count P"
    unfolding limit_post_def by (cases "x = Returned") auto
  from post show "x = Returned \<longleftrightarrow> counted_articles (consumer s) = requested_article_count P"
    unfolding limit_post_def by (cases "x = Returned") auto
  from post show "\<exists>log title serialized sz ll.
             consumer s = log @ AddArticle title serialized False True (Some sz)
                              # process_languagelinks W P title ll
             \<and> counted_articles log + 1 = requested_article_count P" if "x = Returned"
    using that unfolding limit_post_def by simp
  from post show "\<exists>fed. articles P titles = fed @ articles_left s"
    unfolding limit_post_def by simp
qed

lemmas mp_defs =
  parse_mp_def example_parser_def articles_def chunks.simps new_chunk_def feed_def
  on_timeout_def handle_outcome_def run_log_def process_languagelinks_def

text \<open>
  The requested count is not reached when a chunk gives no result. \<^verbatim>\<open>iter_count\<close>
  is incremented in line 491, after \<^verbatim>\<open>resulti.next\<close> has returned a result; an
  exception of the worker function is raised by \<^verbatim>\<open>next\<close>, so a chunk whose titles
  are all empty or failed leaves \<^verbatim>\<open>iter_count\<close> at 0, and line 481 takes that for
  the end of the stream. For every worker function that finds the first title empty,
  with chunks of one title: the run ends after that title, with every other title still
  in the stream.
\<close>

lemma chunk_without_result_ends_run:
  assumes "cv a = Inl (EmptyArticleError a)"
  shows "parse_mp cv W (example_parser 1 k) (a # rest) [Feed, Done 0, Feed]
           = Some (Drained,
               \<lparr> articles_left = rest, chunk_left = 0, fed_all = True, pending = [],
                 iter_count = 0, real_article_count = 0,
                 consumer = [AddMetadata ''article_format'' ''html'', EmptyArticle a] \<rparr>)"
  using assms by (cases rest) (simp_all add: mp_defs)

text \<open>
  With the \<open>convert\<close> of the program no count above 0 is ever reached: an article that
  is no redirect is handed to the renderer with two arguments too many (line 119) and
  fails, so every result that the pool delivers is a redirect, which is not counted.
\<close>

lemma convert_result_redirect:
  assumes "convert W a = Inr (title, serialized, redirect, rest)"
  shows "redirect"
proof -
  have "render_article W a tx sz \<noteq> Inr r" for tx sz r
    using render_article_raises [of W a tx sz] by auto
  with assms show ?thesis
    by (auto simp: convert_def convert_try_def seq_def reader_getitem_def
        reader_getitem_size_def mkredirect_def
        split: sum.splits option.splits if_splits prod.splits)
qed

lemma handle_outcome_counts_nothing:
  assumes "handle_outcome W' P (convert W a) s = (xo, s')"
    and "counted_articles (consumer s) = 0"
  shows "counted_articles (consumer s') = 0 \<and> xo \<noteq> Some Returned"
proof (cases "convert W a")
  case (Inl e)
  with assms show ?thesis
    by (auto simp: handle_outcome_def split: if_splits)
next
  case (Inr r)
  obtain title serialized redirect ll sz where r: "r = (title, serialized, redirect, ll, sz)"
    by (cases r) auto
  with Inr have "redirect" by (auto dest: convert_result_redirect)
  with Inr r assms show ?thesis
    by (auto simp: handle_outcome_def Let_def split: if_splits)
qed

lemma on_event_counts_nothing:
  assumes "counted_articles (consumer s) = 0"
    and "on_event (convert W) W' P e s = Some (xo, s')"
  shows "counted_articles (consumer s') = 0 \<and> xo \<noteq> Some Returned"
proof (cases e)
  case Feed
  with assms show ?thesis by (auto split: if_splits)
next
  case (Done i)
  with assms(2)
  have "handle_outcome W' P (convert W (pending s ! i))
          (s\<lparr>pending := take i (pending s) @ drop (Suc i) (pending s)\<rparr>) = (xo, s')"
    by (simp split: if_splits)
  from handle_outcome_counts_nothing [OF this] assms(1) show ?thesis by simp
next
  case (Timeout n)
  with assms show ?thesis by (auto simp: on_timeout_def)
qed

lemma pooled_counts_nothing:
  assumes "parse_mp (convert W) W' P titles evs = Some (x, s)"
  shows "counted_articles (consumer s) = 0 \<and> x \<noteq> Returned"
proof (rule parse_mp_rule [where I = "\<lambda>s. counted_articles (consumer s) = 0"
      and Q = "\<lambda>x s. counted_articles (consumer s) = 0 \<and> x \<noteq> Returned", OF _ _ _ _ _ assms])
  fix e s u
  assume "counted_articles (consumer s) = 0" "on_event (convert W) W' P e s = Some (None, u)"
  then show "counted_articles (consumer u) = 0"
    by (auto dest: on_event_counts_nothing)
next
  fix e s y u
  assume "counted_articles (consumer s) = 0" "on_event (convert W) W' P e s = Some (Some y, u)"
  then show "counted_articles (consumer u) = 0 \<and> y \<noteq> Returned"
    by (auto dest: on_event_counts_nothing)
next
  fix s :: mp_state
  assume "counted_articles (consumer s) = 0"
  then show "counted_articles (consumer (new_chunk P s)) = 0"
    by (simp add: new_chunk_def)
next
  fix s :: mp_state
  assume "counted_articles (consumer s) = 0"
  then show "counted_articles (consumer s) = 0 \<and> Drained \<noteq> Returned"
    by simp
next
  show "counted_articles (consumer
          \<lparr> articles_left = articles P titles, chunk_left = 0, fed_all = False,
            pending = [], iter_count = 1, real_article_count = 0,
            consumer = [AddMetadata ''article_format'' ''html''] \<rparr>) = 0"
    by simp
qed

text \<open>
  Claim C8 says that with a requested article count of \<open>K\<close> the scheduler reports
  exactly \<open>K\<close> articles that are no redirects and stops then, also when more titles
  remain in the stream. The code run in chunks of one title, with one article requested,
  on the titles \<open>E\<close>, whose text is empty, and \<open>A\<close>, whose text is an article: \<open>E\<close>
  is reported as empty and the run ends there, in either order of the task thread and
  the worker. No article is reported, \<^verbatim>\<open>parse_mp\<close> is not left by the \<^verbatim>\<open>return\<close>
  of line 505, and \<open>A\<close> is still in the stream, never dispatched.
\<close>

theorem requested_count_not_reached:
  "parse_mp (convert example_wiki) example_wiki (example_parser 1 1) [U ''E'', U ''A'']
       [Feed, Done 0, Feed]
     = Some (Drained,
         \<lparr> articles_left = [U ''A''], chunk_left = 0, fed_all = True, pending = [],
           iter_count = 0, real_article_count = 0,
           consumer = [AddMetadata ''article_format'' ''html'', EmptyArticle (U ''E'')] \<rparr>)
   \<and> run_log (parse_mp (convert example_wiki) example_wiki (example_parser 1 1)
                [U ''E'', U ''A''] [Feed, Feed, Done 0])
       = Some (Drained, [AddMetadata ''article_format'' ''html'', EmptyArticle (U ''E'')])
   \<and> counted_articles [AddMetadata ''article_format'' ''html'', EmptyArticle (U ''E'')] = 0
   \<and> requested_article_count (example_parser 1 1) = 1
   \<and> reader example_wiki (U ''A'') = Some (Some (U ''text''), 4)"
  by (simp add: mp_defs wiki_defs string_defs)

text \<open>
  Claim C2 says that after a timeout the same chunk is dispatched again, so that every
  title of it is still reported as added, empty or failed. The code run on a chunk with
  the one title \<open>A\<close> whose worker does not answer before the timeout: the timeout is
  reported, the new pool is given the iterator \<^verbatim>\<open>chunk\<close>, which has handed out
  \<open>A\<close> already and is exhausted, and the run ends without a report for \<open>A\<close>,
  whatever \<open>convert\<close> would have returned for it.
\<close>

theorem timeout_loses_title:
  "\<forall>cv. run_log (parse_mp cv example_wiki (example_parser 3 0) [U ''A'']
                    [Feed, Timeout 1, Feed])
          = Some (Drained, [AddMetadata ''article_format'' ''html'', TimedOut 1])"
  by (simp add: mp_defs)

text \<open>
  The same with a second title in the chunk, and a chunk in which no title gives a
  result: the outer loop takes it for the end of the stream.
\<close>

lemma timeout_loses_rest_of_chunk:
  "run_log (parse_mp (convert example_wiki) example_wiki (example_parser 2 0) [U ''R'', U ''A'']
              [Feed, Feed, Done 0, Timeout 2, Feed, Feed])
     = Some (Drained, [AddMetadata ''article_format'' ''html'',
                       AddArticle (U ''R'') (Json3 [] [] [(''r'', U ''A'')]) True True (Some 15),
                       TimedOut 2])"
  by (simp add: mp_defs wiki_defs string_defs)

lemma failed_chunk_ends_run:
  "run_log (parse_mp (convert example_wiki) example_wiki (example_parser 1 0) [U ''E'', U ''R'']
              [Feed, Done 0, Feed])
     = Some (Drained, [AddMetadata ''article_format'' ''html'', EmptyArticle (U ''E'')])"
  by (simp add: mp_defs wiki_defs string_defs)

subsection \<open>Outcomes per title\<close>

lemma reported_append [simp]: "reported (a @ b) = reported a @ reported b"
  by (simp add: reported_def)

lemma reported_Nil [simp]: "reported [] = []"
  by (simp add: reported_def)

lemma reported_Cons [simp]:
  "reported (r # log) = (if is_outcome r then [report_title r] else []) @ reported log"
  by (simp add: reported_def)

lemma reported_languagelinks [simp]: "reported (process_languagelinks W P title ll) = []"
  by (simp add: reported_def languagelinks_uncounted)

lemma convert_cases:
  obtains (result) serialized redirect ll sz
      where "convert W a = Inr (a, serialized, redirect, ll, sz)"
    | (empty) "convert W a = Inl (EmptyArticleError a)"
    | (failed) "convert W a = Inl (ConvertError a)"
proof (cases "convert W a")
  case (Inl e)
  with convert_raises [of W a e] empty failed show ?thesis by auto
next
  case (Inr r)
  obtain t serialized redirect ll sz where "r = (t, serialized, redirect, ll, sz)"
    by (cases r) auto
  with Inr convert_title [of W a t] result show ?thesis by auto
qed

lemma simple_loop_convert:
  "\<exists>log'. simple_loop (convert W) W P as log = (log', None)
          \<and> reported log' = reported log @ as"
proof (induction as arbitrary: log)
  case Nil
  show ?case by simp
next
  case (Cons a as)
  show ?case
  proof (cases rule: convert_cases [of W a])
    case (result serialized redirect ll sz)
    with Cons [of "log @ [AddArticle a serialized redirect True (Some sz)]
                     @ process_languagelinks W P a ll"]
    show ?thesis by simp
  next
    case empty
    with Cons [of "log @ [EmptyArticle a]"] show ?thesis by simp
  next
    case failed
    with Cons [of "log @ [FailArticle a]"] show ?thesis by simp
  qed
qed

lemma distinct_once:
  "distinct xs \<Longrightarrow> length (filter (\<lambda>x. x = t) xs) = (if t \<in> set xs then 1 else 0)"
  by (induction xs) auto

lemma parse_simple_once:
  assumes "distinct titles"
  shows "\<exists>log. parse_simple (convert W) W P titles = (log, None)
           \<and> (\<forall>t. outcomes t log = (if t \<in> set (articles P titles) then 1 else 0))"
proof -
  from simple_loop_convert [of W P "articles P titles" "[AddMetadata ''article_format'' ''html'']"]
  obtain log where l: "parse_simple (convert W) W P titles = (log, None)"
      "reported log = articles P titles"
    by (auto simp: parse_simple_def)
  from assms have "distinct (articles P titles)"
    by (simp add: articles_def split: option.splits)
  with l show ?thesis
    by (auto simp: outcomes_def distinct_once)
qed

lemma handle_outcome_convert:
  assumes "handle_outcome W P (convert W a) s = (xo, s')"
  shows "reported (consumer s') = reported (consumer s)
           @ (if requested_article_count P \<noteq> 0 \<and> is_redirect (convert W a) then [] else [a])"
    and "pending s' = pending s" and "articles_left s' = articles_left s"
    and "requested_article_count P \<noteq> 0 \<Longrightarrow>
           filter counted_redirect (consumer s') = filter counted_redirect (consumer s)"
  using assms
  by (cases rule: convert_cases [of W a];
      auto simp: handle_outcome_def Let_def is_redirect_def languagelinks_uncounted
        split: if_splits)+

lemma pooled_feed: "pooled_inv P T s \<Longrightarrow> pooled_inv P T (feed s)"
  by (cases "articles_left s") (auto simp: pooled_inv_def feed_def)

lemma pooled_done:
  assumes "pooled_inv P T s" and "i < length (pending s)"
    and "handle_outcome W P (convert W (pending s ! i))
           (s\<lparr>pending := take i (pending s) @ drop (Suc i) (pending s)\<rparr>) = (xo, s')"
  shows "pooled_inv P T s'"
proof -
  let ?a = "pending s ! i"
  let ?rest = "take i (pending s) @ drop (Suc i) (pending s)"
  from assms(2) have p: "pending s = take i (pending s) @ ?a # drop (Suc i) (pending s)"
    by (rule id_take_nth_drop)
  note h = handle_outcome_convert [OF assms(3)]
  from assms(1) have d: "distinct (reported (consumer s) @ pending s @ articles_left s)"
    and sub: "set (reported (consumer s) @ pending s @ articles_left s) \<subseteq> set T"
    by (simp_all add: pooled_inv_def)
  from d have "distinct (reported (consumer s) @ [?a] @ ?rest @ articles_left s)"
    by (subst (asm) p) auto
  moreover from sub have "set (reported (consumer s) @ [?a] @ ?rest @ articles_left s) \<subseteq> set T"
    by (subst (asm) p) auto
  ultimately have "distinct (reported (consumer s') @ pending s' @ articles_left s')"
    "set (reported (consumer s') @ pending s' @ articles_left s') \<subseteq> set T"
    using h(1,2,3) by (auto split: if_splits)
  with h(4) assms(1) show ?thesis
    by (simp add: pooled_inv_def)
qed

lemma pooled_event:
  assumes "pooled_inv P T s" and "on_event (convert W) W P e s = Some (xo, s')"
  shows "pooled_inv P T s'"
proof (cases e)
  case Feed
  with assms show ?thesis by (auto split: if_splits intro: pooled_feed)
next
  case (Done i)
  with assms show ?thesis by (auto split: if_splits intro: pooled_done)
next
  case (Timeout n)
  with assms show ?thesis by (auto simp: pooled_inv_def on_timeout_def)
qed

lemma pooled_run:
  assumes "distinct titles" and "parse_mp (convert W) W P titles evs = Some (x, s)"
  shows "pooled_inv P (articles P titles) s"
proof (rule parse_mp_rule [where I = "pooled_inv P (articles P titles)"
      and Q = "\<lambda>x. pooled_inv P (articles P titles)", OF _ _ _ _ _ assms(2)])
  fix e s u
  assume "pooled_inv P (articles P titles) s" "on_event (convert W) W P e s = Some (None, u)"
  then show "pooled_inv P (articles P titles) u" by (rule pooled_event)
next
  fix e s y u
  assume "pooled_inv P (articles P titles) s" "on_event (convert W) W P e s = Some (Some y, u)"
  then show "pooled_inv P (articles P titles) u" by (rule pooled_event)
next
  fix s assume "pooled_inv P (articles P titles) s"
  then show "pooled_inv P (articles P titles) (new_chunk P s)"
    by (auto simp: pooled_inv_def new_chunk_def)
next
  fix s assume "pooled_inv P (articles P titles) s"
  then show "pooled_inv P (articles P titles) s" .
next
  from assms(1) have "distinct (articles P titles)"
    by (simp add: articles_def split: option.splits)
  then show "pooled_inv P (articles P titles)
          \<lparr> articles_left = articles P titles, chunk_left = 0, fed_all = False,
            pending = [], iter_count = 1, real_article_count = 0,
            consumer = [AddMetadata ''article_format'' ''html''] \<rparr>"
    by (simp add: pooled_inv_def)
qed

lemma pooled_at_most_once:
  assumes "distinct titles" and "parse_mp (convert W) W P titles evs = Some (x, s)"
  shows "outcomes t (consumer s) \<le> 1"
    and "0 < outcomes t (consumer s) \<Longrightarrow> t \<in> set (articles P titles)"
    and "requested_article_count P \<noteq> 0 \<Longrightarrow> \<not> list_ex counted_redirect (consumer s)"
proof -
  note inv = pooled_run [OF assms, unfolded pooled_inv_def]
  from inv have d: "distinct (reported (consumer s))"
    and sub: "set (reported (consumer s)) \<subseteq> set (articles P titles)"
    and red: "requested_article_count P \<noteq> 0 \<longrightarrow> filter counted_redirect (consumer s) = []"
    by simp_all
  from d show "outcomes t (consumer s) \<le> 1"
    by (simp add: outcomes_def distinct_once)
  from d have "0 < outcomes t (consumer s) \<Longrightarrow> t \<in> set (reported (consumer s))"
    by (simp add: outcomes_def distinct_once split: if_splits)
  with sub show "0 < outcomes t (consumer s) \<Longrightarrow> t \<in> set (articles P titles)"
    by blast
  from red show "requested_article_count P \<noteq> 0 \<Longrightarrow> \<not> list_ex counted_redirect (consumer s)"
    by (simp add: list_ex_iff filter_empty_conv)
qed

lemma outcome_reported_once:
  "outcomes a (consumer (snd (handle_outcome W P (convert W a) s)))
     = outcomes a (consumer s)
       + (if requested_article_count P \<noteq> 0 \<and> is_redirect (convert W a) then 0 else 1)"
  using handle_outcome_convert(1) [of W P a s "fst (handle_outcome W P (convert W a) s)"
      "snd (handle_outcome W P (convert W a) s)"]
  by (simp add: outcomes_def)

text \<open>
  Claim C1, as amended. In sequential mode every title of the requested slice gets
  exactly one outcome (added, added as redirect, empty or failed) and no other title
  gets one. In pooled mode no title gets more than one outcome, only titles of the slice
  get one, and each result that the pool delivers is reported exactly once, except that
  with an article count requested a redirect is not reported, so that no redirect is
  added as counted then. Redirects made from language links are additions that are not
  counted and no outcomes.
\<close>

theorem outcomes_per_title:
  "(distinct titles
      \<longrightarrow> (\<exists>log. parse_simple (convert W) W P titles = (log, None)
             \<and> (\<forall>t. outcomes t log = (if t \<in> set (articles P titles) then 1 else 0))))
   \<and> (distinct titles \<and> parse_mp (convert W) W P titles evs = Some (x, s)
      \<longrightarrow> outcomes t (consumer s) \<le> 1
        \<and> (0 < outcomes t (consumer s) \<longrightarrow> t \<in> set (articles P titles))
        \<and> (requested_article_count P \<noteq> 0 \<longrightarrow> \<not> list_ex counted_redirect (consumer s)))
   \<and> outcomes a (consumer (snd (handle_outcome W P (convert W a) u)))
       = outcomes a (consumer u)
         + (if requested_article_count P \<noteq> 0 \<and> is_redirect (convert W a) then 0 else 1)"
proof (intro conjI impI; (elim conjE)?)
  assume "distinct titles"
  then show "\<exists>log. parse_simple (convert W) W P titles = (log, None)
             \<and> (\<forall>t. outcomes t log = (if t \<in> set (articles P titles) then 1 else 0))"
    by (rule parse_simple_once)
next
  assume r: "distinct titles" "parse_mp (convert W) W P titles evs = Some (x, s)"
  show "outcomes t (consumer s) \<le> 1"
    using r by (rule pooled_at_most_once(1))
  show "t \<in> set (articles P titles)" if "0 < outcomes t (consumer s)"
    using r that by (rule pooled_at_most_once(2))
  show "\<not> list_ex counted_redirect (consumer s)" if "requested_article_count P \<noteq> 0"
    using r that by (rule pooled_at_most_once(3))
next
  show "outcomes a (consumer (snd (handle_outcome W P (convert W a) u)))
       = outcomes a (consumer u)
         + (if requested_article_count P \<noteq> 0 \<and> is_redirect (convert W a) then 0 else 1)"
    by (rule outcome_reported_once)
qed

theorem outcomes_per_title_witness:
  "parse_simple (convert example_wiki) example_wiki (example_parser 2 0) [U ''R'', U ''E'', U ''A'']
     = ([AddMetadata ''article_format'' ''html'',
         AddArticle (U ''R'') (Json3 [] [] [(''r'', U ''A'')]) True True (Some 15),
         EmptyArticle (U ''E''), FailArticle (U ''A'')], None)
   \<and> outcomes (U ''E'') [AddMetadata ''article_format'' ''html'',
         AddArticle (U ''R'') (Json3 [] [] [(''r'', U ''A'')]) True True (Some 15),
         EmptyArticle (U ''E''), FailArticle (U ''A'')] = 1
   \<and> run_log (parse_mp (convert example_wiki) example_wiki (example_parser 2 0)
                [U ''R'', U ''E'', U ''A''] [Feed, Feed, Done 1, Done 0, Feed, Feed, Done 0, Feed])
       = Some (Drained, [AddMetadata ''article_format'' ''html'', EmptyArticle (U ''E''),
                         AddArticle (U ''R'') (Json3 [] [] [(''r'', U ''A'')]) True True (Some 15),
                         FailArticle (U ''A'')])
   \<and> outcomes (U ''R'') [AddMetadata ''article_format'' ''html'', EmptyArticle (U ''E''),
                      AddArticle (U ''R'') (Json3 [] [] [(''r'', U ''A'')]) True True (Some 15),
                      FailArticle (U ''A'')] \<le> 1"
proof -
  let ?T = "[U ''R'', U ''E'', U ''A'']"
  let ?P = "example_parser 2 0"
  let ?log = "[AddMetadata ''article_format'' ''html'', EmptyArticle (U ''E''),
               AddArticle (U ''R'') (Json3 [] [] [(''r'', U ''A'')]) True True (Some 15),
               FailArticle (U ''A'')]"
  let ?s = "\<lparr> articles_left = [], chunk_left = 1, fed_all = True, pending = [],
             iter_count = 0, real_article_count = 0, consumer = ?log \<rparr>"
  have d: "distinct ?T" by (simp add: U_def)
  have seq: "parse_simple (convert example_wiki) example_wiki ?P ?T
     = ([AddMetadata ''article_format'' ''html'',
         AddArticle (U ''R'') (Json3 [] [] [(''r'', U ''A'')]) True True (Some 15),
         EmptyArticle (U ''E''), FailArticle (U ''A'')], None)"
    by (simp add: parse_simple_def mp_defs wiki_defs string_defs)
  have run: "parse_mp (convert example_wiki) example_wiki ?P ?T
               [Feed, Feed, Done 1, Done 0, Feed, Feed, Done 0, Feed] = Some (Drained, ?s)"
    by (simp add: mp_defs wiki_defs string_defs)
  from outcomes_per_title [THEN conjunct1, rule_format, OF d, of example_wiki ?P]
  obtain log where "parse_simple (convert example_wiki) example_wiki ?P ?T = (log, None)"
    and once: "\<forall>t. outcomes t log = (if t \<in> set (articles ?P ?T) then 1 else 0)"
    by blast
  with seq have "outcomes (U ''E'') [AddMetadata ''article_format'' ''html'',
         AddArticle (U ''R'') (Json3 [] [] [(''r'', U ''A'')]) True True (Some 15),
         EmptyArticle (U ''E''), FailArticle (U ''A'')] = 1"
    by (simp add: articles_def example_parser_def)
  moreover
  from outcomes_per_title [THEN conjunct2, THEN conjunct1, rule_format, OF conjI [OF d run],
      THEN conjunct1, of "U ''R''"]
  have "outcomes (U ''R'') ?log \<le> 1" by simp
  moreover from run have "run_log (parse_mp (convert example_wiki) example_wiki ?P ?T
               [Feed, Feed, Done 1, Done 0, Feed, Feed, Done 0, Feed]) = Some (Drained, ?log)"
    by (simp add: run_log_def)
  ultimately show ?thesis using seq by (intro conjI)
qed

text \<open>
  Claim C1 as stated fails in pooled mode: with an article count of 2 requested, the
  redirect \<open>R\<close>, the only title of the slice, is delivered by the pool and gets no
  outcome, though the run ends with the stream and not by early termination.
\<close>

theorem redirect_dropped_under_limit:
  "run_log (parse_mp (convert example_wiki) example_wiki (example_parser 1 2) [U ''R'']
              [Feed, Done 0, Feed, Feed])
     = Some (Drained, [AddMetadata ''article_format'' ''html''])
   \<and> outcomes (U ''R'') [AddMetadata ''article_format'' ''html''] = 0
   \<and> U ''R'' \<in> set (articles (example_parser 1 2) [U ''R''])"
  by (simp add: mp_defs wiki_defs string_defs outcomes_def reported_def)

end
